theory Spec2Isabelle
  imports Complex_Main
begin

section \<open>Python values and built-ins used by the handlers\<close>

text \<open>
  The program is a Flask application (\<^verbatim>\<open>src/app.py\<close>): every handler reads fields of a
  JSON request body, queries or changes rows of an SQL store through an ORM session, and
  answers with a JSON document and a status code.

  Scope of the model.
  \<^item> The body of a request is a JSON object. The tables of users, one-time codes, flights
    and bookings are modelled; feedback and baggage are not.
  \<^item> A field that a handler hands to a column unchanged is typed by that column
    (\<open>db.String\<close> is \<open>string\<close>, \<open>db.Integer\<close> is \<open>int\<close>); \<open>None\<close> stands for a key that the
    body does not have. A field that the handler converts itself (\<^verbatim>\<open>int(...)\<close>,
    \<^verbatim>\<open>str(...)\<close>) keeps its JSON value, restricted to the scalars
    null, booleans, integers and strings.
  \<^item> Strings are ASCII character lists.
  \<^item> Integers are Python's unbounded integers; the 64-bit range of the store's integer
    columns and the digit limit of \<^verbatim>\<open>int(str)\<close> in recent interpreters are not modelled.
  \<^item> The one floating-point expression of the program, \<^verbatim>\<open>int(base * 0.8)\<close>, is modelled
    exactly on integers: conversion and product round to 53 significant bits, ties to even.
\<close>

datatype json = JNull | JBool bool | JInt int | JStr string

datatype pyexn = KeyError | TypeError | ValueError | OverflowError | AttributeError | IntegrityError

text \<open>Python's truth value of a JSON scalar, and of an optional string field.\<close>

fun truthy :: "json \<Rightarrow> bool" where
  "truthy JNull = False"
| "truthy (JBool b) = b"
| "truthy (JInt n) = (n \<noteq> 0)"
| "truthy (JStr s) = (s \<noteq> [])"

fun truthy_field :: "json option \<Rightarrow> bool" where
  "truthy_field None = False"
| "truthy_field (Some v) = truthy v"

fun truthy_str :: "string option \<Rightarrow> bool" where
  "truthy_str None = False"
| "truthy_str (Some s) = (s \<noteq> [])"

subsection \<open>\<^verbatim>\<open>int(x)\<close>\<close>

definition is_space :: "char \<Rightarrow> bool" where
  "is_space c = (c \<in> set [CHR '' '', CHR 0x09, CHR 0x0A, CHR 0x0B, CHR 0x0C, CHR 0x0D])"

definition is_digit :: "char \<Rightarrow> bool" where
  "is_digit c = (c \<in> set ''0123456789'')"

definition digit_val :: "char \<Rightarrow> nat" where
  "digit_val c = of_char c - 48"

definition strip :: "string \<Rightarrow> string" where
  "strip s = rev (dropWhile is_space (rev (dropWhile is_space s)))"

text \<open>
  Decimal digits after a first digit has been read; a single underscore may stand between
  two digits.
\<close>

fun digits_from :: "nat \<Rightarrow> string \<Rightarrow> nat option" where
  "digits_from acc [] = Some acc"
| "digits_from acc [c] = (if is_digit c then Some (acc * 10 + digit_val c) else None)"
| "digits_from acc (c # d # cs) =
     (if is_digit c then digits_from (acc * 10 + digit_val c) (d # cs)
      else if c = CHR ''_'' \<and> is_digit d then digits_from (acc * 10 + digit_val d) cs
      else None)"

fun unsigned_literal :: "string \<Rightarrow> nat option" where
  "unsigned_literal [] = None"
| "unsigned_literal (c # cs) = (if is_digit c then digits_from (digit_val c) cs else None)"

fun signed_literal :: "string \<Rightarrow> int option" where
  "signed_literal [] = None"
| "signed_literal (c # cs) =
     (if c = CHR ''-'' then map_option (\<lambda>n. - int n) (unsigned_literal cs)
      else if c = CHR ''+'' then map_option int (unsigned_literal cs)
      else map_option int (unsigned_literal (c # cs)))"

definition int_of_str :: "string \<Rightarrow> int option" where
  "int_of_str s = signed_literal (strip s)"

text \<open>\<^verbatim>\<open>int(v)\<close>: \<open>TypeError\<close> on \<open>None\<close>, \<open>ValueError\<close> on a string that is no literal.\<close>

fun py_int :: "json \<Rightarrow> pyexn + int" where
  "py_int JNull = Inl TypeError"
| "py_int (JBool b) = Inr (if b then 1 else 0)"
| "py_int (JInt n) = Inr n"
| "py_int (JStr s) = (case int_of_str s of None \<Rightarrow> Inl ValueError | Some n \<Rightarrow> Inr n)"

subsection \<open>\<^verbatim>\<open>str(x)\<close> and \<^verbatim>\<open>f"{n:06d}"\<close>\<close>

definition digit_char :: "nat \<Rightarrow> char" where
  "digit_char d = ''0123456789'' ! (d mod 10)"

fun dec_nat :: "nat \<Rightarrow> string" where
  "dec_nat n = (if n < 10 then [digit_char n] else dec_nat (n div 10) @ [digit_char n])"

declare dec_nat.simps [simp del]

definition dec_int :: "int \<Rightarrow> string" where
  "dec_int n = (if n < 0 then CHR ''-'' # dec_nat (nat (- n)) else dec_nat (nat n))"

fun py_str :: "json \<Rightarrow> string" where
  "py_str JNull = ''None''"
| "py_str (JBool b) = (if b then ''True'' else ''False'')"
| "py_str (JInt n) = dec_int n"
| "py_str (JStr s) = s"

definition format_06d :: "nat \<Rightarrow> string" where
  "format_06d n = (let s = dec_nat n in replicate (6 - length s) CHR ''0'' @ s)"

subsection \<open>\<^verbatim>\<open>str.lower\<close> and \<^verbatim>\<open>str.endswith\<close>\<close>

definition lower_char :: "char \<Rightarrow> char" where
  "lower_char c =
     (case map_of (zip ''ABCDEFGHIJKLMNOPQRSTUVWXYZ'' ''abcdefghijklmnopqrstuvwxyz'') c of
        None \<Rightarrow> c
      | Some l \<Rightarrow> l)"

definition lower :: "string \<Rightarrow> string" where
  "lower s = map lower_char s"

definition endswith :: "string \<Rightarrow> string \<Rightarrow> bool" where
  "endswith s t = (length t \<le> length s \<and> drop (length s - length t) s = t)"

subsection \<open>\<^verbatim>\<open>int(base * 0.8)\<close>\<close>

text \<open>
  \<open>bit_length\<close> is Python's \<^verbatim>\<open>int.bit_length\<close>. \<open>round53 p\<close> is the natural number
  nearest to \<open>p\<close> that has at most 53 significant bits, ties going to the even
  significand: what conversion to a double does to an integer, and what the rounding
  of a product does to its exact value scaled by a power of two.
\<close>

fun bit_length :: "nat \<Rightarrow> nat" where
  "bit_length n = (if n = 0 then 0 else Suc (bit_length (n div 2)))"

declare bit_length.simps [simp del]

definition round53 :: "nat \<Rightarrow> nat" where
  "round53 p =
     (if bit_length p \<le> 53 then p
      else let s = bit_length p - 53;
               m = p div 2 ^ s;
               r = p mod 2 ^ s;
               h = 2 ^ (s - 1)
           in (if h < r \<or> (r = h \<and> odd m) then m + 1 else m) * 2 ^ s)"

text \<open>The double nearest to 0.8 is \<open>DOUBLE_0_8 / 2 ^ 52\<close>.\<close>

definition DOUBLE_0_8 :: nat where
  "DOUBLE_0_8 = 3602879701896397"

text \<open>
  \<^verbatim>\<open>int(base * 0.8)\<close>: \<open>base\<close> is converted to a double (\<open>OverflowError\<close> when the
  rounded magnitude reaches \<open>2 ^ 1024\<close>), multiplied by the double 0.8 with one rounding,
  and truncated towards zero.
\<close>

definition int_times_0_8 :: "int \<Rightarrow> pyexn + int" where
  "int_times_0_8 base =
     (let f = round53 (nat \<bar>base\<bar>)
      in if 2 ^ 1024 \<le> f then Inl OverflowError
         else Inr (sgn base * int (round53 (f * DOUBLE_0_8) div 2 ^ 52)))"

section \<open>The store\<close>

text \<open>
  One record per model class, one list of rows per table, in insertion order.
  \<open>Hashed p\<close> stands for \<^verbatim>\<open>generate_password_hash(p)\<close>; \<open>created_at\<close> is the clock
  reading at insertion.
\<close>

datatype credential = Hashed string

record user =
  id :: int
  name :: string
  email :: string
  password_hash :: credential
  role :: string
  age :: "int option"
  phone :: "string option"
  is_verified :: bool

record otp_code =
  id :: int
  phone :: string
  code :: string
  created_at :: nat
  is_used :: bool

record flight =
  id :: int
  code :: string
  source :: string
  destination :: string
  departure_time :: string
  arrival_time :: string
  total_seats :: int
  available_seats :: int
  status :: string

record booking =
  id :: int
  user_id :: int
  flight_id :: int
  num_seats :: int
  status :: string
  created_at :: nat
  base_price :: int
  final_price :: int
  discount_reason :: "string option"

record database =
  users :: "user list"
  otp_codes :: "otp_code list"
  flights :: "flight list"
  bookings :: "booking list"

definition empty_db :: database where
  "empty_db = \<lparr>users = [], otp_codes = [], flights = [], bookings = []\<rparr>"

text \<open>The key of a new row: one more than the largest key of the table, 1 in an empty table.\<close>

fun next_id :: "int list \<Rightarrow> int" where
  "next_id [] = 1"
| "next_id (i # ids) = fold max ids i + 1"

text \<open>\<^verbatim>\<open>UPDATE ... WHERE\<close>: every row that satisfies \<open>P\<close> is changed by \<open>f\<close>.\<close>

definition update_rows :: "('a \<Rightarrow> bool) \<Rightarrow> ('a \<Rightarrow> 'a) \<Rightarrow> 'a list \<Rightarrow> 'a list" where
  "update_rows P f rows = map (\<lambda>x. if P x then f x else x) rows"

text \<open>
  A handler works in a session: it reads the store, and its changes are pending until
  \<^verbatim>\<open>db.session.commit()\<close>. When the request ends, the session is discarded; what was
  not committed is lost.
\<close>

record session =
  store :: database
  work :: database

definition begin_session :: "database \<Rightarrow> session" where
  "begin_session db = \<lparr>store = db, work = db\<rparr>"

definition commit :: "session \<Rightarrow> session" where
  "commit s = s\<lparr>store := work s\<rparr>"

definition teardown :: "session \<Rightarrow> database" where
  "teardown s = store s"

text \<open>
  What a handler answers: \<open>Reply c x\<close> is \<^verbatim>\<open>jsonify(x), c\<close>; \<open>Fail c msg\<close> is
  \<^verbatim>\<open>jsonify({"error": msg}), c\<close>; \<open>NotFound\<close> is the 404 of \<^verbatim>\<open>get_or_404\<close>;
  \<open>Uncaught e\<close> is an exception that no handler catches (a 500).
\<close>

datatype 'a response = Reply nat 'a | Fail nat string | NotFound | Uncaught pyexn

section \<open>Pricing\<close>

definition BASE_PRICE_PER_SEAT :: int where
  "BASE_PRICE_PER_SEAT = 5000"

definition calculate_price :: "user \<Rightarrow> int \<Rightarrow> pyexn + (int \<times> int \<times> string option)" where
  "calculate_price usr n =
     (let base = BASE_PRICE_PER_SEAT * n
      in if endswith (lower (user.email usr)) ''.edu''
         then (case int_times_0_8 base of
                 Inl e \<Rightarrow> Inl e
               | Inr final \<Rightarrow> Inr (base, final, Some ''Student .edu discount (20%)''))
         else Inr (base, base, None))"

section \<open>Bookings\<close>

text \<open>
  The body of \<^verbatim>\<open>POST /api/bookings\<close>. \<open>num_seats\<close> goes through \<^verbatim>\<open>int(...)\<close> and keeps
  its JSON value. The reply carries the new booking row.
\<close>

record booking_body =
  user_id :: "int option"
  flight_id :: "int option"
  num_seats :: "json option"

text \<open>\<^verbatim>\<open>data.get("num_seats", 1)\<close>\<close>

definition seats_requested :: "booking_body \<Rightarrow> json" where
  "seats_requested data = (case booking_body.num_seats data of None \<Rightarrow> JInt 1 | Some v \<Rightarrow> v)"

definition create_booking ::
  "database \<Rightarrow> nat \<Rightarrow> booking_body \<Rightarrow> booking response \<times> database" where
  "create_booking db now data =
     (let s = begin_session db in
      case booking_body.user_id data of
        None \<Rightarrow> (Uncaught KeyError, teardown s)
      | Some uid \<Rightarrow>
      (case find (\<lambda>u. user.id u = uid) (users (work s)) of
        None \<Rightarrow> (NotFound, teardown s)
      | Some usr \<Rightarrow>
      (case booking_body.flight_id data of
        None \<Rightarrow> (Uncaught KeyError, teardown s)
      | Some fid \<Rightarrow>
      (case find (\<lambda>f. flight.id f = fid) (flights (work s)) of
        None \<Rightarrow> (NotFound, teardown s)
      | Some flt \<Rightarrow>
      (case py_int (seats_requested data) of
        Inl e \<Rightarrow> (Uncaught e, teardown s)
      | Inr n \<Rightarrow>
          if n \<le> 0 then (Fail 400 ''Number of seats must be positive'', teardown s)
          else if flight.available_seats flt < n
          then (Fail 400 ''Not enough seats available'', teardown s)
          else
          (case calculate_price usr n of
            Inl e \<Rightarrow> (Uncaught e, teardown s)
          | Inr (base, final, reason) \<Rightarrow>
              let b = \<lparr>booking.id = next_id (map booking.id (bookings (work s))),
                       user_id = user.id usr, flight_id = flight.id flt, num_seats = n,
                       status = ''Confirmed'', created_at = now,
                       base_price = base, final_price = final, discount_reason = reason\<rparr>;
                  seats = flight.available_seats flt - n;
                  s1 = s\<lparr>work := (work s)\<lparr>
                         flights := update_rows (\<lambda>f. flight.id f = flight.id flt)
                                      (\<lambda>f. f\<lparr>flight.available_seats := seats\<rparr>)
                                      (flights (work s)),
                         bookings := bookings (work s) @ [b]\<rparr>\<rparr>
              in (Reply 201 b, teardown (commit s1))))))))"

section \<open>Flights\<close>

text \<open>An entry of \<^verbatim>\<open>airports.json\<close>, read anew by every request that needs the directory.\<close>

record airport =
  code :: string
  city :: string
  country :: string

definition valid_codes :: "airport list \<Rightarrow> string set" where
  "valid_codes airports = set (map airport.code airports)"

text \<open>
  The body of \<^verbatim>\<open>POST /api/flights\<close>. \<open>total_seats\<close> goes through \<^verbatim>\<open>int(...)\<close> and keeps
  its JSON value.
\<close>

record flight_body =
  code :: "string option"
  source :: "string option"
  destination :: "string option"
  departure_time :: "string option"
  arrival_time :: "string option"
  total_seats :: "json option"
  status :: "string option"

text \<open>\<^verbatim>\<open>all(data.get(k) for k in required)\<close>\<close>

definition required_fields :: "flight_body \<Rightarrow> bool" where
  "required_fields data =
     (truthy_str (flight_body.code data) \<and> truthy_str (flight_body.source data) \<and>
      truthy_str (flight_body.destination data) \<and> truthy_str (flight_body.departure_time data) \<and>
      truthy_str (flight_body.arrival_time data) \<and> truthy_field (flight_body.total_seats data))"

definition create_flight ::
  "airport list \<Rightarrow> database \<Rightarrow> flight_body \<Rightarrow> flight response \<times> database" where
  "create_flight airports db data =
     (let s = begin_session db in
      if \<not> required_fields data
      then (Fail 400 ''Missing required flight fields'', teardown s)
      else
      (case (flight_body.code data, flight_body.source data, flight_body.destination data,
             flight_body.departure_time data, flight_body.arrival_time data,
             flight_body.total_seats data) of
        (Some c, Some src, Some dst, Some dep, Some arr, Some seats) \<Rightarrow>
          if src \<notin> valid_codes airports \<or> dst \<notin> valid_codes airports
          then (Fail 400 ''Invalid airport code'', teardown s)
          else if src = dst
          then (Fail 400 ''Source and destination cannot be same'', teardown s)
          else
          (case py_int seats of
            Inl e \<Rightarrow> (Uncaught e, teardown s)
          | Inr tot \<Rightarrow>
              let f = \<lparr>flight.id = next_id (map flight.id (flights (work s))),
                       code = c, source = src, destination = dst,
                       departure_time = dep, arrival_time = arr,
                       total_seats = tot, available_seats = tot,
                       status = (case flight_body.status data of
                                   None \<Rightarrow> ''On Time'' | Some st \<Rightarrow> st)\<rparr>;
                  s1 = s\<lparr>work := (work s)\<lparr>flights := flights (work s) @ [f]\<rparr>\<rparr>
              in (Reply 201 f, teardown (commit s1)))
      | _ \<Rightarrow> (Fail 400 ''Missing required flight fields'', teardown s)))"

text \<open>
  The body of \<^verbatim>\<open>PUT /api/flights/<id>\<close>: \<open>Some v\<close> is a key of the body with value \<open>v\<close>.
\<close>

record flight_update =
  code :: "string option"
  source :: "string option"
  destination :: "string option"
  departure_time :: "string option"
  arrival_time :: "string option"
  total_seats :: "int option"
  available_seats :: "int option"
  status :: "string option"

text \<open>The loop over the eight field names: \<^verbatim>\<open>setattr(flight, field, data[field])\<close>.\<close>

definition set_fields :: "flight_update \<Rightarrow> flight \<Rightarrow> flight" where
  "set_fields data f =
     (let f1 = (case flight_update.code data of None \<Rightarrow> f | Some v \<Rightarrow> f\<lparr>flight.code := v\<rparr>);
          f2 = (case flight_update.source data of None \<Rightarrow> f1 | Some v \<Rightarrow> f1\<lparr>flight.source := v\<rparr>);
          f3 = (case flight_update.destination data of
                  None \<Rightarrow> f2 | Some v \<Rightarrow> f2\<lparr>flight.destination := v\<rparr>);
          f4 = (case flight_update.departure_time data of
                  None \<Rightarrow> f3 | Some v \<Rightarrow> f3\<lparr>flight.departure_time := v\<rparr>);
          f5 = (case flight_update.arrival_time data of
                  None \<Rightarrow> f4 | Some v \<Rightarrow> f4\<lparr>flight.arrival_time := v\<rparr>);
          f6 = (case flight_update.total_seats data of
                  None \<Rightarrow> f5 | Some v \<Rightarrow> f5\<lparr>flight.total_seats := v\<rparr>);
          f7 = (case flight_update.available_seats data of
                  None \<Rightarrow> f6 | Some v \<Rightarrow> f6\<lparr>flight.available_seats := v\<rparr>)
      in (case flight_update.status data of None \<Rightarrow> f7 | Some v \<Rightarrow> f7\<lparr>flight.status := v\<rparr>))"

definition update_flight ::
  "airport list \<Rightarrow> database \<Rightarrow> int \<Rightarrow> flight_update \<Rightarrow> flight response \<times> database" where
  "update_flight airports db fid data =
     (let s = begin_session db in
      case find (\<lambda>f. flight.id f = fid) (flights (work s)) of
        None \<Rightarrow> (NotFound, teardown s)
      | Some flt \<Rightarrow>
          if (case flight_update.source data of
                None \<Rightarrow> False | Some v \<Rightarrow> v \<notin> valid_codes airports)
          then (Fail 400 ''Invalid source airport'', teardown s)
          else if (case flight_update.destination data of
                     None \<Rightarrow> False | Some v \<Rightarrow> v \<notin> valid_codes airports)
          then (Fail 400 ''Invalid destination airport'', teardown s)
          else
            let s1 = s\<lparr>work := (work s)\<lparr>
                       flights := update_rows (\<lambda>f. flight.id f = flight.id flt)
                                    (set_fields data) (flights (work s))\<rparr>\<rparr>
            in (Reply 200 (set_fields data flt), teardown (commit s1)))"

subsection \<open>Sequences of calls on the flight inventory\<close>

datatype api_call =
    CreateFlight flight_body
  | UpdateFlight int flight_update
  | CreateBooking nat booking_body

fun step :: "airport list \<Rightarrow> database \<Rightarrow> api_call \<Rightarrow> database" where
  "step airports db (CreateFlight data) = snd (create_flight airports db data)"
| "step airports db (UpdateFlight fid data) = snd (update_flight airports db fid data)"
| "step airports db (CreateBooking now data) = snd (create_booking db now data)"

definition run :: "airport list \<Rightarrow> database \<Rightarrow> api_call list \<Rightarrow> database" where
  "run airports db calls = foldl (step airports) db calls"

text \<open>The seat invariant of one flight, and of every flight of a store.\<close>

definition seats_ok :: "flight \<Rightarrow> bool" where
  "seats_ok f = (0 \<le> flight.available_seats f \<and> flight.available_seats f \<le> flight.total_seats f)"

definition seats_invariant :: "database \<Rightarrow> bool" where
  "seats_invariant db = list_all seats_ok (flights db)"

text \<open>The primary key of the flight table is unique.\<close>

definition flight_keys_ok :: "database \<Rightarrow> bool" where
  "flight_keys_ok db = distinct (map flight.id (flights db))"

text \<open>
  Calls that leave the seat counters to the booking ledger: every booking, an update that
  names neither counter, and a creation whose \<open>total_seats\<close> does not convert to a negative
  integer.
\<close>

fun seat_safe :: "api_call \<Rightarrow> bool" where
  "seat_safe (CreateFlight data) =
     (case flight_body.total_seats data of
        None \<Rightarrow> True
      | Some v \<Rightarrow> (case py_int v of Inl e \<Rightarrow> True | Inr tot \<Rightarrow> 0 \<le> tot))"
| "seat_safe (UpdateFlight fid data) =
     (flight_update.total_seats data = None \<and> flight_update.available_seats data = None)"
| "seat_safe (CreateBooking now data) = True"

section \<open>One-time codes and registration\<close>

definition OWNER_ADMIN_EMAIL :: string where
  "OWNER_ADMIN_EMAIL = ''admin@mail.com''"

record otp_request =
  phone :: "string option"

text \<open>
  \<^verbatim>\<open>POST /api/request-otp\<close>; \<open>r\<close> is the number that \<^verbatim>\<open>random.randint(0, 999999)\<close> draws.
\<close>

definition request_otp ::
  "database \<Rightarrow> nat \<Rightarrow> nat \<Rightarrow> otp_request \<Rightarrow> string response \<times> database" where
  "request_otp db now r data =
     (let s = begin_session db in
      case otp_request.phone data of
        None \<Rightarrow> (Fail 400 ''phone is required'', teardown s)
      | Some ph \<Rightarrow>
          if ph = [] then (Fail 400 ''phone is required'', teardown s)
          else
            let c = format_06d r;
                otp = \<lparr>otp_code.id = next_id (map otp_code.id (otp_codes (work s))),
                         phone = ph, code = c, created_at = now, is_used = False\<rparr>;
                s1 = s\<lparr>work := (work s)\<lparr>otp_codes := otp_codes (work s) @ [otp]\<rparr>\<rparr>
            in (Reply 200 c, teardown (commit s1)))"

text \<open>
  \<^verbatim>\<open>.order_by(OtpCode.created_at.desc()).first()\<close>: a row with the largest \<open>created_at\<close>;
  among rows of equal \<open>created_at\<close> the model takes the one inserted first.
\<close>

fun newest :: "otp_code list \<Rightarrow> otp_code option" where
  "newest [] = None"
| "newest (x # xs) =
     (case newest xs of
        None \<Rightarrow> Some x
      | Some y \<Rightarrow> if otp_code.created_at x < otp_code.created_at y then Some y else Some x)"

text \<open>\<^verbatim>\<open>filter_by(phone=phone, code=str(otp_code), is_used=False)\<close>\<close>

definition otp_matches :: "string \<Rightarrow> string \<Rightarrow> otp_code \<Rightarrow> bool" where
  "otp_matches ph c x = (otp_code.phone x = ph \<and> otp_code.code x = c \<and> \<not> otp_code.is_used x)"

text \<open>
  The body of \<^verbatim>\<open>POST /api/register\<close>. \<open>age\<close> goes through \<^verbatim>\<open>int(...)\<close> and \<open>otp\<close>
  through \<^verbatim>\<open>str(...)\<close>; both keep their JSON value.
\<close>

record register_body =
  name :: "string option"
  email :: "string option"
  password :: "string option"
  phone :: "string option"
  age :: "json option"
  otp :: "json option"

text \<open>\<^verbatim>\<open>all([name, email, password, phone, otp_code])\<close>\<close>

definition all_present :: "register_body \<Rightarrow> bool" where
  "all_present data =
     (truthy_str (register_body.name data) \<and> truthy_str (register_body.email data) \<and>
      truthy_str (register_body.password data) \<and> truthy_str (register_body.phone data) \<and>
      truthy_field (register_body.otp data))"

text \<open>
  \<^verbatim>\<open>age_raw\<close> is \<^verbatim>\<open>data.get("age")\<close>: \<open>None\<close> for a missing key and for null. The result is
  the exception of \<^verbatim>\<open>int(age_raw)\<close> or the age to store.
\<close>

fun parse_age :: "json option \<Rightarrow> pyexn + int option" where
  "parse_age None = Inr None"
| "parse_age (Some JNull) = Inr None"
| "parse_age (Some v) = (case py_int v of Inl e \<Rightarrow> Inl e | Inr a \<Rightarrow> Inr (Some a))"

definition register :: "database \<Rightarrow> register_body \<Rightarrow> user response \<times> database" where
  "register db data =
     (let s = begin_session db in
      if \<not> all_present data
      then (Fail 400 ''name, email, password, phone and otp are required'', teardown s)
      else
      (case (register_body.name data, register_body.email data, register_body.password data,
             register_body.phone data, register_body.otp data) of
        (Some nm, Some em, Some pw, Some ph, Some otp_raw) \<Rightarrow>
          (case find (\<lambda>u. user.email u = em) (users (work s)) of
            Some u \<Rightarrow> (Fail 400 ''Email already registered'', teardown s)
          | None \<Rightarrow>
          (case newest (filter (otp_matches ph (py_str otp_raw)) (otp_codes (work s))) of
            None \<Rightarrow> (Fail 400 ''Invalid or used OTP'', teardown s)
          | Some found \<Rightarrow>
              let s1 = s\<lparr>work := (work s)\<lparr>
                         otp_codes := update_rows (\<lambda>x. otp_code.id x = otp_code.id found)
                                        (\<lambda>x. x\<lparr>otp_code.is_used := True\<rparr>)
                                        (otp_codes (work s))\<rparr>\<rparr>
              in
              (case parse_age (register_body.age data) of
                Inl e \<Rightarrow>
                  if e = ValueError then (Fail 400 ''age must be a number'', teardown s1)
                  else (Uncaught e, teardown s1)
              | Inr a \<Rightarrow>
                  let r = (if lower em = lower OWNER_ADMIN_EMAIL then ''admin'' else ''passenger'');
                      u = \<lparr>user.id = next_id (map user.id (users (work s1))),
                             name = nm, email = em, password_hash = Hashed pw, role = r,
                             age = a, phone = Some ph, is_verified = True\<rparr>;
                      s2 = s1\<lparr>work := (work s1)\<lparr>users := users (work s1) @ [u]\<rparr>\<rparr>
                  in (Reply 201 u, teardown (commit s2)))))
      | _ \<Rightarrow> (Fail 400 ''name, email, password, phone and otp are required'', teardown s)))"

section \<open>Employee import\<close>

text \<open>
  A row of \<^verbatim>\<open>csv.DictReader\<close>: a dictionary from the names of the header to the cells of
  the line; a cell that a short line does not have is \<open>None\<close> (the reader's \<^verbatim>\<open>restval\<close>).
\<close>

type_synonym csv_row = "string \<Rightarrow> string option option"

text \<open>\<^verbatim>\<open>row.get(k)\<close> and \<^verbatim>\<open>row.get(k, d)\<close>\<close>

definition row_get :: "csv_row \<Rightarrow> string \<Rightarrow> string option" where
  "row_get row k = (case row k of None \<Rightarrow> None | Some cell \<Rightarrow> cell)"

definition row_get_default :: "csv_row \<Rightarrow> string \<Rightarrow> string \<Rightarrow> string option" where
  "row_get_default row k d = (case row k of None \<Rightarrow> Some d | Some cell \<Rightarrow> cell)"

text \<open>
  The loop over the rows, with the users table as the session sees it (the query of each
  row flushes the users added before it) and the two counters. Hashing a password that
  is \<open>None\<close> raises at once. A user whose role is \<open>None\<close> violates the column's NOT NULL
  constraint at the next flush; no step between the two is observable, so the model
  raises when the user is added.
\<close>

fun import_rows :: "user list \<Rightarrow> nat \<Rightarrow> nat \<Rightarrow> csv_row list \<Rightarrow> pyexn + (user list \<times> nat \<times> nat)" where
  "import_rows us created skipped [] = Inr (us, created, skipped)"
| "import_rows us created skipped (row # rows) =
     (if \<not> truthy_str (row_get row ''email'') \<or> \<not> truthy_str (row_get row ''name'')
      then import_rows us created skipped rows
      else
      (case (row_get row ''email'', row_get row ''name'') of
        (Some em, Some nm) \<Rightarrow>
          (case find (\<lambda>u. user.email u = em) us of
            Some u \<Rightarrow> import_rows us created (skipped + 1) rows
          | None \<Rightarrow>
          (case row_get_default row ''password'' ''password123'' of
            None \<Rightarrow> Inl AttributeError
          | Some pw \<Rightarrow>
          (case row_get_default row ''role'' ''staff'' of
            None \<Rightarrow> Inl IntegrityError
          | Some r \<Rightarrow>
              import_rows
                (us @ [\<lparr>user.id = next_id (map user.id us), name = nm, email = em,
                         password_hash = Hashed pw, role = r, age = None, phone = None,
                         is_verified = True\<rparr>])
                (created + 1) skipped rows)))
      | _ \<Rightarrow> import_rows us created skipped rows))"

text \<open>\<^verbatim>\<open>os.path.join(a, p)\<close> on a POSIX system.\<close>

definition path_join :: "string \<Rightarrow> string \<Rightarrow> string" where
  "path_join a p =
     (if p \<noteq> [] \<and> hd p = CHR ''/'' then p
      else if a = [] \<or> last a = CHR ''/'' then a @ p
      else a @ ''/'' @ p)"

record import_body =
  path :: "string option"

text \<open>
  \<^verbatim>\<open>POST /api/admin/import-employees\<close>. \<open>root_path\<close> is the backend folder; \<open>files\<close> gives,
  for each path at which a CSV file exists, the rows that the reader yields. The reply
  carries the counters \<open>created\<close> and \<open>skipped_existing\<close>.
\<close>

definition import_employees ::
  "string \<Rightarrow> (string \<Rightarrow> csv_row list option) \<Rightarrow> database \<Rightarrow> import_body
     \<Rightarrow> (nat \<times> nat) response \<times> database" where
  "import_employees root_path files db data =
     (let s = begin_session db in
      case import_body.path data of
        None \<Rightarrow> (Fail 400 ''path is required'', teardown s)
      | Some p \<Rightarrow>
          if p = [] then (Fail 400 ''path is required'', teardown s)
          else
            let abs_path = path_join root_path p in
            (case files abs_path of
              None \<Rightarrow> (Fail 400 (''File not found: '' @ abs_path), teardown s)
            | Some rows \<Rightarrow>
              (case import_rows (users (work s)) 0 0 rows of
                Inl e \<Rightarrow> (Uncaught e, teardown s)
              | Inr (us, created, skipped) \<Rightarrow>
                  let s1 = s\<lparr>work := (work s)\<lparr>users := us\<rparr>\<rparr>
                  in (Reply 200 (created, skipped), teardown (commit s1)))))"

section \<open>Auxiliary notions\<close>

text \<open>The row that a successful booking inserts, and the store that it commits.\<close>

definition new_booking :: "database \<Rightarrow> nat \<Rightarrow> user \<Rightarrow> flight \<Rightarrow> int \<Rightarrow> int \<Rightarrow> int \<Rightarrow> string option \<Rightarrow> booking" where
  "new_booking db now usr flt n base final reason =
     \<lparr>booking.id = next_id (map booking.id (bookings db)),
      user_id = user.id usr, flight_id = flight.id flt, num_seats = n,
      status = ''Confirmed'', created_at = now,
      base_price = base, final_price = final, discount_reason = reason\<rparr>"

definition booked :: "database \<Rightarrow> flight \<Rightarrow> int \<Rightarrow> booking \<Rightarrow> database" where
  "booked db flt n b =
     db\<lparr>flights := update_rows (\<lambda>f. flight.id f = flight.id flt)
                      (\<lambda>f. f\<lparr>flight.available_seats := flight.available_seats flt - n\<rparr>)
                      (flights db),
        bookings := bookings db @ [b]\<rparr>"

text \<open>The row that a successful \<open>create_flight\<close> inserts.\<close>

definition new_flight :: "database \<Rightarrow> string \<Rightarrow> string \<Rightarrow> string \<Rightarrow> string \<Rightarrow> string \<Rightarrow> int \<Rightarrow> string option \<Rightarrow> flight" where
  "new_flight db c src dst dep arr tot st =
     \<lparr>flight.id = next_id (map flight.id (flights db)),
      code = c, source = src, destination = dst, departure_time = dep, arrival_time = arr,
      total_seats = tot, available_seats = tot,
      status = (case st of None \<Rightarrow> ''On Time'' | Some s \<Rightarrow> s)\<rparr>"

text \<open>Unique flight keys together with the seat invariant.\<close>

definition well_formed :: "database \<Rightarrow> bool" where
  "well_formed db = (flight_keys_ok db \<and> seats_invariant db)"

text \<open>
  The change that \<open>register\<close> makes to the code records (\<^verbatim>\<open>otp.is_used = True\<close> on the record
  found), the role that it assigns, and the user that it inserts.
\<close>

definition mark_used :: "otp_code \<Rightarrow> otp_code list \<Rightarrow> otp_code list" where
  "mark_used found rows =
     update_rows (\<lambda>x. otp_code.id x = otp_code.id found) (\<lambda>x. x\<lparr>otp_code.is_used := True\<rparr>) rows"

definition owner_role :: "string \<Rightarrow> string" where
  "owner_role em = (if lower em = lower OWNER_ADMIN_EMAIL then ''admin'' else ''passenger'')"

definition new_user :: "database \<Rightarrow> string \<Rightarrow> string \<Rightarrow> string \<Rightarrow> string \<Rightarrow> int option \<Rightarrow> user" where
  "new_user db nm em pw ph a =
     \<lparr>user.id = next_id (map user.id (users db)),
      name = nm, email = em, password_hash = Hashed pw, role = owner_role em,
      age = a, phone = Some ph, is_verified = True\<rparr>"

section \<open>Example data\<close>

text \<open>
  Two users (Ann with a student address), the sample directory of \<^verbatim>\<open>src/app.py\<close>, a flight from
  DEL to BOM with 10 seats, one code record, and rows of employee files. The rows of one
  file share the names of its header.
\<close>

definition ann :: user where
  "ann = \<lparr>user.id = 1, name = ''Ann'', email = ''Ann@Uni.EDU'',
     password_hash = Hashed ''pw'', role = ''passenger'', age = None, phone = Some ''5550100'',
     is_verified = True\<rparr>"

definition bob :: user where
  "bob = \<lparr>user.id = 2, name = ''Bob'', email = ''bob@mail.com'',
     password_hash = Hashed ''pw'', role = ''passenger'', age = Some 30, phone = Some ''5550101'',
     is_verified = True\<rparr>"

definition del_bom :: flight where
  "del_bom = \<lparr>flight.id = 1, code = ''AI101'', source = ''DEL'', destination = ''BOM'',
     departure_time = ''2026-01-01T10:00'', arrival_time = ''2026-01-01T12:00'',
     total_seats = 10, available_seats = 10, status = ''On Time''\<rparr>"

definition demo_db :: database where
  "demo_db = \<lparr>users = [ann, bob], otp_codes = [], flights = [del_bom], bookings = []\<rparr>"

definition book3 :: booking_body where
  "book3 = \<lparr>booking_body.user_id = Some 2, flight_id = Some 1, num_seats = Some (JInt 3)\<rparr>"

definition booking3 :: booking where
  "booking3 = \<lparr>booking.id = 1, user_id = 2, flight_id = 1, num_seats = 3,
     status = ''Confirmed'', created_at = 5, base_price = 15000, final_price = 15000,
     discount_reason = None\<rparr>"

definition demo_db7 :: database where
  "demo_db7 = \<lparr>users = [ann, bob], otp_codes = [],
     flights = [del_bom\<lparr>flight.available_seats := 7\<rparr>], bookings = [booking3]\<rparr>"

definition book8 :: booking_body where
  "book8 = \<lparr>booking_body.user_id = Some 2, flight_id = Some 1, num_seats = Some (JInt 8)\<rparr>"

definition book_default :: booking_body where
  "book_default = \<lparr>booking_body.user_id = Some 1, flight_id = Some 1, num_seats = None\<rparr>"

definition sample_airports :: "airport list" where
  "sample_airports =
     [\<lparr>airport.code = ''DEL'', city = ''Delhi'', country = ''India''\<rparr>,
      \<lparr>airport.code = ''BOM'', city = ''Mumbai'', country = ''India''\<rparr>,
      \<lparr>airport.code = ''DXB'', city = ''Dubai'', country = ''UAE''\<rparr>,
      \<lparr>airport.code = ''LHR'', city = ''London'', country = ''UK''\<rparr>,
      \<lparr>airport.code = ''JFK'', city = ''New York'', country = ''USA''\<rparr>]"

definition del_bom_body :: flight_body where
  "del_bom_body = \<lparr>flight_body.code = Some ''AI101'', source = Some ''DEL'',
     destination = Some ''BOM'', departure_time = Some ''2026-01-01T10:00'',
     arrival_time = Some ''2026-01-01T12:00'', total_seats = Some (JInt 10), status = None\<rparr>"

definition users_db :: database where
  "users_db = \<lparr>users = [ann, bob], otp_codes = [], flights = [], bookings = []\<rparr>"

definition overbook :: flight_update where
  "overbook = \<lparr>flight_update.code = None, source = None, destination = None,
     departure_time = None, arrival_time = None, total_seats = None,
     available_seats = Some 11, status = None\<rparr>"

definition delay :: flight_update where
  "delay = \<lparr>flight_update.code = None, source = None, destination = None,
     departure_time = None, arrival_time = None, total_seats = None,
     available_seats = None, status = Some ''Delayed''\<rparr>"

definition otp1 :: otp_code where
  "otp1 = \<lparr>otp_code.id = 1, phone = ''9999999999'', code = ''123456'', created_at = 100,
     is_used = False\<rparr>"

definition otp_db :: database where
  "otp_db = \<lparr>users = [ann, bob], otp_codes = [otp1], flights = [], bookings = []\<rparr>"

definition carol_body :: register_body where
  "carol_body = \<lparr>register_body.name = Some ''Carol'', email = Some ''carol@mail.com'',
     password = Some ''s3cret'', phone = Some ''9999999999'', age = Some (JStr ''31''),
     otp = Some (JInt 123456)\<rparr>"

definition carol :: user where
  "carol = \<lparr>user.id = 3, name = ''Carol'', email = ''carol@mail.com'',
     password_hash = Hashed ''s3cret'', role = ''passenger'', age = Some 31,
     phone = Some ''9999999999'', is_verified = True\<rparr>"

definition carol_db :: database where
  "carol_db = \<lparr>users = [ann, bob, carol], otp_codes = [otp1\<lparr>otp_code.is_used := True\<rparr>],
     flights = [], bookings = []\<rparr>"

definition dave_body :: register_body where
  "dave_body = \<lparr>register_body.name = Some ''Dave'', email = Some ''dave@mail.com'',
     password = Some ''hunter2'', phone = Some ''9999999999'', age = None,
     otp = Some (JStr ''123456'')\<rparr>"

definition bad_age_body :: register_body where
  "bad_age_body = \<lparr>register_body.name = Some ''Carol'', email = Some ''carol@mail.com'',
     password = Some ''s3cret'', phone = Some ''9999999999'', age = Some (JStr ''abc''),
     otp = Some (JInt 123456)\<rparr>"

definition admin_row :: csv_row where
  "admin_row = [''name'' \<mapsto> Some ''Eve'', ''email'' \<mapsto> Some ''eve@corp.com'',
     ''password'' \<mapsto> Some ''pw1'', ''role'' \<mapsto> Some ''admin'']"

definition eve :: user where
  "eve = \<lparr>user.id = 3, name = ''Eve'', email = ''eve@corp.com'', password_hash = Hashed ''pw1'',
     role = ''admin'', age = None, phone = None, is_verified = True\<rparr>"

definition short_row :: csv_row where
  "short_row = [''name'' \<mapsto> Some ''Eve'', ''email'' \<mapsto> Some ''eve@corp.com'',
     ''password'' \<mapsto> Some ''pw1'', ''role'' \<mapsto> None]"

definition frank_full_row :: csv_row where
  "frank_full_row = [''name'' \<mapsto> Some ''Frank'', ''email'' \<mapsto> Some ''frank@corp.com'',
     ''password'' \<mapsto> Some ''pw2'', ''role'' \<mapsto> Some ''staff'']"

definition frank_row :: csv_row where
  "frank_row = [''name'' \<mapsto> Some ''Frank'', ''email'' \<mapsto> Some ''frank@corp.com'']"

definition grace_row :: csv_row where
  "grace_row = [''name'' \<mapsto> Some ''Grace'', ''email'' \<mapsto> Some ''grace@corp.com'']"

definition bob_row :: csv_row where
  "bob_row = [''name'' \<mapsto> Some ''Robert'', ''email'' \<mapsto> Some ''bob@mail.com'']"

definition frank :: user where
  "frank = \<lparr>user.id = 3, name = ''Frank'', email = ''frank@corp.com'',
     password_hash = Hashed ''password123'', role = ''staff'', age = None, phone = None,
     is_verified = True\<rparr>"

definition grace :: user where
  "grace = \<lparr>user.id = 4, name = ''Grace'', email = ''grace@corp.com'',
     password_hash = Hashed ''password123'', role = ''staff'', age = None, phone = None,
     is_verified = True\<rparr>"

definition employees_csv :: import_body where
  "employees_csv = \<lparr>import_body.path = Some ''employees.csv''\<rparr>"

definition files_with :: "csv_row list \<Rightarrow> string \<Rightarrow> csv_row list option" where
  "files_with rows = [''/srv/app/employees.csv'' \<mapsto> rows]"

section \<open>Rounding to 53 bits\<close>

lemma bit_length_0 [simp]: "bit_length 0 = 0"
  by (simp add: bit_length.simps)

lemma bit_length_pos: "0 < n \<Longrightarrow> bit_length n = Suc (bit_length (n div 2))"
  by (subst bit_length.simps) simp

lemma bit_length_bounds:
  "0 < n \<Longrightarrow> 2 ^ (bit_length n - 1) \<le> n \<and> n < 2 ^ bit_length n"
proof (induction n rule: bit_length.induct)
  case (1 n)
  show ?case
  proof (cases "n div 2 = 0")
    case True
    with "1.prems" have "n = 1" by presburger
    then show ?thesis by (simp add: bit_length_pos)
  next
    case False
    then have pos: "0 < n div 2" by simp
    from "1.IH" "1.prems" pos
    have ih: "2 ^ (bit_length (n div 2) - 1) \<le> n div 2" "n div 2 < 2 ^ bit_length (n div 2)"
      by simp_all
    from pos have bl: "0 < bit_length (n div 2)" by (simp add: bit_length_pos)
    then obtain k where k: "bit_length (n div 2) = Suc k" by (cases "bit_length (n div 2)") auto
    from ih k have "2 ^ k \<le> n div 2" "n div 2 < 2 ^ Suc k" by simp_all
    then have "2 ^ Suc k \<le> n" "n < 2 ^ Suc (Suc k)" by auto
    with "1.prems" k show ?thesis by (simp add: bit_length_pos)
  qed
qed

lemma bit_length_eqI:
  assumes "2 ^ j \<le> n" "n < 2 ^ Suc j"
  shows "bit_length n = Suc j"
proof -
  from assms have pos: "0 < n" by (metis less_le_trans zero_less_numeral zero_less_power)
  from bit_length_bounds [OF pos]
  have lo: "2 ^ (bit_length n - 1) \<le> n" and hi: "n < 2 ^ bit_length n" by simp_all
  have "(2::nat) ^ j < 2 ^ bit_length n" using assms(1) hi by linarith
  then have a: "j < bit_length n" by (simp add: power_strict_increasing_iff)
  have "(2::nat) ^ (bit_length n - 1) < 2 ^ Suc j" using assms(2) lo by linarith
  then have b: "bit_length n - 1 < Suc j"
    by (simp only: power_strict_increasing_iff one_less_numeral_iff semiring_norm)
  from a b show ?thesis by linarith
qed

lemma bit_length_le_iff: "bit_length n \<le> k \<longleftrightarrow> n < 2 ^ k"
proof (cases "n = 0")
  case True then show ?thesis by simp
next
  case False
  then have pos: "0 < n" by simp
  from bit_length_bounds [OF pos]
  have lo: "2 ^ (bit_length n - 1) \<le> n" and hi: "n < 2 ^ bit_length n" by simp_all
  show ?thesis
  proof
    assume "bit_length n \<le> k"
    then have "(2::nat) ^ bit_length n \<le> 2 ^ k" by (simp add: power_increasing)
    with hi show "n < 2 ^ k" by linarith
  next
    assume "n < 2 ^ k"
    with lo have "(2::nat) ^ (bit_length n - 1) < 2 ^ k" by linarith
    then have "bit_length n - 1 < k"
      by (simp only: power_strict_increasing_iff one_less_numeral_iff semiring_norm)
    then show "bit_length n \<le> k" by linarith
  qed
qed

lemma round53_small: "p < 2 ^ 53 \<Longrightarrow> round53 p = p"
  by (simp add: round53_def bit_length_le_iff)

lemma round53_down:
  assumes lo: "2 ^ (j + 52) \<le> p" and hi: "p < 2 ^ (j + 53)"
    and p: "p = q * 2 ^ j + r" and r: "2 * r < 2 ^ j"
  shows "round53 p = q * 2 ^ j"
proof (cases j)
  case 0
  with r have "r = 0" by simp
  with p 0 have "p = q" by simp
  moreover from hi 0 have "round53 p = p" by (simp add: round53_small)
  ultimately show ?thesis using 0 by simp
next
  case (Suc i)
  have e: "Suc (j + 52) = j + 53" by simp
  have "p < 2 ^ Suc (j + 52)" unfolding e by (rule hi)
  with lo have "bit_length p = Suc (j + 52)" by (rule bit_length_eqI)
  then have bl: "bit_length p = j + 53" by (simp only: e)
  have rlt: "r < 2 ^ j" using r by linarith
  have m: "p div 2 ^ j = q" using p rlt by simp
  have rm: "p mod 2 ^ j = r" using p rlt by simp
  have h: "\<not> (2 ^ (j - 1) < r)" "r \<noteq> 2 ^ (j - 1)" using r Suc by auto
  show ?thesis
    using bl Suc h m rm by (simp add: round53_def Let_def)
qed

lemma round53_exact:
  assumes a: "a < 2 ^ 53"
  shows "round53 (a * 2 ^ k) = a * 2 ^ k"
proof (cases "a * 2 ^ k < 2 ^ 53")
  case True
  then show ?thesis by (rule round53_small)
next
  case False
  then have big: "2 ^ 53 \<le> a * 2 ^ k" by simp
  then have apos: "0 < a" by (cases "a = 0") auto
  define L where "L = bit_length a"
  from bit_length_bounds [OF apos]
  have alo: "2 ^ (L - 1) \<le> a" and ahi: "a < 2 ^ L" by (simp_all add: L_def)
  have Lpos: "0 < L" using apos by (simp add: L_def bit_length_pos)
  have L53: "L \<le> 53" using a by (simp add: L_def bit_length_le_iff)
  have "a * 2 ^ k < 2 ^ L * 2 ^ k" using ahi by simp
  with big have "(2::nat) ^ 53 < 2 ^ L * 2 ^ k" by linarith
  then have "(2::nat) ^ 53 < 2 ^ (L + k)" by (simp add: power_add)
  then have "53 < L + k"
    by (simp only: power_strict_increasing_iff one_less_numeral_iff semiring_norm)
  then obtain j where j: "L + k = j + 53" "0 < j" by (metis add.commute less_imp_add_positive)
  have jk: "j \<le> k" using j L53 by linarith
  have e1: "(2::nat) ^ (j + 52) = 2 ^ (L - 1) * 2 ^ k"
  proof -
    have "j + 52 = (L - 1) + k" using j Lpos by linarith
    then show ?thesis by (simp add: power_add)
  qed
  have e2: "(2::nat) ^ (j + 53) = 2 ^ L * 2 ^ k"
    using j by (simp add: power_add [symmetric])
  have lo: "2 ^ (j + 52) \<le> a * 2 ^ k" unfolding e1 using alo by simp
  have hi: "a * 2 ^ k < 2 ^ (j + 53)" unfolding e2 using ahi by simp
  have "(2::nat) ^ k = 2 ^ (k - j) * 2 ^ j"
    using jk by (simp add: power_add [symmetric])
  then have split0: "a * 2 ^ k = (a * 2 ^ (k - j)) * 2 ^ j" by simp
  then have split: "a * 2 ^ k = (a * 2 ^ (k - j)) * 2 ^ j + 0" by simp
  have "round53 (a * 2 ^ k) = (a * 2 ^ (k - j)) * 2 ^ j"
    by (rule round53_down [OF lo hi split]) simp
  also have "\<dots> = a * 2 ^ k" by (rule split0 [symmetric])
  finally show ?thesis .
qed

lemma round53_upper: "2 ^ 53 * round53 p \<le> (2 ^ 53 + 1) * p"
proof (cases "p < 2 ^ 53")
  case True
  then show ?thesis by (simp add: round53_small)
next
  case False
  then have nle: "\<not> bit_length p \<le> 53" by (simp add: bit_length_le_iff)
  then have ppos: "0 < p" by (cases "p = 0") auto
  define s where "s = bit_length p - 53"
  have spos: "0 < s" and bl: "bit_length p = s + 53" using nle by (simp_all add: s_def)
  define m where "m = p div 2 ^ s"
  define r where "r = p mod 2 ^ s"
  have p: "p = m * 2 ^ s + r" unfolding m_def r_def by (rule div_mult_mod_eq [symmetric])
  have "bit_length p - 1 = s + 52" using bl by simp
  with bit_length_bounds [OF ppos] have plo: "2 ^ (s + 52) \<le> p" by (simp only:)
  have two: "(2::nat) ^ s = 2 * 2 ^ (s - 1)" using spos by (cases s) auto
  have half: "(2::nat) ^ 53 * 2 ^ (s - 1) \<le> p"
  proof -
    have "(2::nat) ^ 53 * 2 ^ (s - 1) = 2 ^ (s + 52)"
      using spos by (cases s) (auto simp: power_add)
    with plo show ?thesis by simp
  qed
  have "round53 p \<le> p + 2 ^ (s - 1)"
  proof (cases "2 ^ (s - 1) < r \<or> (r = 2 ^ (s - 1) \<and> odd m)")
    case True
    then have r: "2 ^ (s - 1) \<le> r" by auto
    from True nle have "round53 p = (m + 1) * 2 ^ s"
      by (simp add: round53_def Let_def s_def [symmetric] m_def [symmetric] r_def [symmetric])
    also have "\<dots> = m * 2 ^ s + 2 ^ s" by (simp add: algebra_simps)
    also have "\<dots> \<le> m * 2 ^ s + r + 2 ^ (s - 1)" using r two by linarith
    finally show ?thesis using p by simp
  next
    case False
    with nle have "round53 p = m * 2 ^ s"
      by (simp add: round53_def Let_def s_def [symmetric] m_def [symmetric] r_def [symmetric])
    with p show ?thesis by simp
  qed
  then have "2 ^ 53 * round53 p \<le> 2 ^ 53 * (p + 2 ^ (s - 1))" by simp
  also have "\<dots> = 2 ^ 53 * p + 2 ^ 53 * 2 ^ (s - 1)" by (simp add: algebra_simps)
  also have "\<dots> \<le> 2 ^ 53 * p + p" using half by simp
  finally show ?thesis by (simp add: algebra_simps)
qed

lemma round53_times_0_8:
  assumes q: "q < 2 ^ 53"
  shows "round53 (q * 2 ^ 57 + 8 * q) = q * 2 ^ 57"
proof (cases "q = 0")
  case True
  then show ?thesis by (simp add: round53_small)
next
  case False
  then have qpos: "0 < q" by simp
  define L where "L = bit_length q"
  from bit_length_bounds [OF qpos]
  have qlo: "2 ^ (L - 1) \<le> q" and qhi: "q < 2 ^ L" by (simp_all add: L_def)
  have Lpos: "0 < L" using qpos by (simp add: L_def bit_length_pos)
  have L53: "L \<le> 53" using q by (simp add: L_def bit_length_le_iff)
  define j where "j = L + 4"
  have e1: "(2::nat) ^ (j + 52) = 2 ^ (L - 1) * 2 ^ 57"
  proof -
    have "j + 52 = (L - 1) + 57" using Lpos by (simp add: j_def)
    then show ?thesis by (simp only: power_add)
  qed
  have e2: "(2::nat) ^ (j + 53) = 2 ^ L * 2 ^ 57"
  proof -
    have "j + 53 = L + 57" by (simp add: j_def)
    then show ?thesis by (simp only: power_add)
  qed
  have e3: "(2::nat) ^ j = 16 * 2 ^ L" by (simp add: j_def power_add)
  have e4: "(2::nat) ^ 57 = 2 ^ (53 - L) * 2 ^ j"
  proof -
    have "57 = (53 - L) + j" using L53 by (simp add: j_def)
    then show ?thesis by (simp only: power_add)
  qed
  have lo: "2 ^ (j + 52) \<le> q * 2 ^ 57 + 8 * q"
  proof -
    have "2 ^ (L - 1) * 2 ^ 57 \<le> q * (2 ^ 57 :: nat)" using qlo by (rule mult_le_mono1)
    then show ?thesis unfolding e1 by linarith
  qed
  have hi: "q * 2 ^ 57 + 8 * q < 2 ^ (j + 53)"
  proof -
    have "q + 1 \<le> 2 ^ L" using qhi by simp
    then have "(q + 1) * 2 ^ 57 \<le> 2 ^ L * (2 ^ 57 :: nat)" by (rule mult_le_mono1)
    moreover have "8 * q < 2 ^ 57" using q by simp
    ultimately show ?thesis unfolding e2 by (simp add: algebra_simps)
  qed
  have e5: "q * 2 ^ 57 = (q * 2 ^ (53 - L)) * 2 ^ j"
    by (simp only: e4 mult.assoc)
  have split: "q * 2 ^ 57 + 8 * q = (q * 2 ^ (53 - L)) * 2 ^ j + 8 * q"
    by (simp only: e5)
  have small: "2 * (8 * q) < 2 ^ j" unfolding e3 using qhi by simp
  have "round53 (q * 2 ^ 57 + 8 * q) = (q * 2 ^ (53 - L)) * 2 ^ j"
    using lo hi split small by (rule round53_down)
  also have "\<dots> = q * 2 ^ 57" by (rule e5 [symmetric])
  finally show ?thesis .
qed

lemma int_times_0_8_exact:
  assumes "625 * \<bar>n\<bar> < 2 ^ 53"
  shows "int_times_0_8 (5000 * n) = Inr (4000 * n)"
proof -
  define a where "a = nat \<bar>n\<bar>"
  have a: "625 * a < 2 ^ 53" using assms by (simp add: a_def)
  have abs: "nat \<bar>5000 * n\<bar> = (625 * a) * 2 ^ 3"
    by (simp add: a_def abs_mult nat_mult_distrib)
  have f: "round53 (nat \<bar>5000 * n\<bar>) = 5000 * a"
    unfolding abs using round53_exact [OF a, of 3] by simp
  have q: "125 * a < 2 ^ 53" using a by simp
  have prod: "5000 * a * DOUBLE_0_8 = (125 * a) * 2 ^ 57 + 8 * (125 * a)"
    by (simp add: DOUBLE_0_8_def)
  have r: "round53 (5000 * a * DOUBLE_0_8) = (125 * a) * 2 ^ 57"
    unfolding prod by (rule round53_times_0_8 [OF q])
  have d: "(125 * a) * 2 ^ 57 div 2 ^ 52 = 4000 * a" by simp
  have fin: "\<not> (2 ^ 1024 \<le> 5000 * a)" using a by simp
  have sg: "sgn (5000 * n) * int (4000 * a) = 4000 * n"
    by (cases "n < 0") (auto simp: a_def sgn_if)
  show ?thesis
    unfolding int_times_0_8_def Let_def f r d using fin sg by simp
qed

lemma DOUBLE_0_8_bound: "(2 ^ 53 + 1) * ((2 ^ 53 + 1) * DOUBLE_0_8) \<le> 2 ^ 158"
  by (simp add: DOUBLE_0_8_def)

lemma int_times_0_8_le:
  assumes b: "0 \<le> b" and r: "int_times_0_8 b = Inr f"
  shows "0 \<le> f \<and> f \<le> b"
proof -
  define a where "a = nat \<bar>b\<bar>"
  define g where "g = round53 a"
  define R where "R = round53 (g * DOUBLE_0_8)"
  from r have f: "f = sgn b * int (R div 2 ^ 52)"
    by (auto simp: int_times_0_8_def Let_def a_def g_def R_def split: if_splits)
  have g: "2 ^ 53 * g \<le> (2 ^ 53 + 1) * a" unfolding g_def by (rule round53_upper)
  have R: "2 ^ 53 * R \<le> (2 ^ 53 + 1) * (g * DOUBLE_0_8)" unfolding R_def by (rule round53_upper)
  have "2 ^ 53 * (2 ^ 53 * R) \<le> 2 ^ 53 * ((2 ^ 53 + 1) * (g * DOUBLE_0_8))"
    using R by (rule mult_le_mono2)
  also have "\<dots> = ((2 ^ 53 + 1) * DOUBLE_0_8) * (2 ^ 53 * g)" by (simp add: algebra_simps)
  also have "\<dots> \<le> ((2 ^ 53 + 1) * DOUBLE_0_8) * ((2 ^ 53 + 1) * a)"
    using g by (rule mult_le_mono2)
  also have "\<dots> = ((2 ^ 53 + 1) * ((2 ^ 53 + 1) * DOUBLE_0_8)) * a" by (simp add: algebra_simps)
  also have "\<dots> \<le> 2 ^ 158 * a" using DOUBLE_0_8_bound by (rule mult_le_mono1)
  finally have "2 ^ 106 * R \<le> 2 ^ 106 * (2 ^ 52 * a)" by (simp add: algebra_simps)
  then have "R \<le> 2 ^ 52 * a" by simp
  then have "R div 2 ^ 52 \<le> a" by (simp add: div_le_mono2 less_eq_div_iff_mult_less_eq mult.commute)
  then have "int (R div 2 ^ 52) \<le> b" using b by (simp add: a_def)
  with b f show ?thesis by (cases "b = 0") (auto simp: sgn_if)
qed

section \<open>Pricing\<close>

lemma floor_times_0_8: "\<lfloor>5000 * real_of_int n * 0.8\<rfloor> = 4000 * n"
proof -
  have "5000 * real_of_int n * 0.8 = real_of_int (4000 * n)" by simp
  then show ?thesis by (simp only: floor_of_int)
qed

text \<open>
  Claim C4 (amended). \<open>calculate_price\<close> is a function of the user's email and the seat
  count alone: it takes no store and returns none. For every user and every seat count
  \<open>n\<close> with \<open>625 * \<bar>n\<bar> < 2 ^ 53\<close>: if the email ends with \<open>.edu\<close> (compared in lower case)
  the result is base \<open>5000 * n\<close>, final \<open>\<lfloor>5000 * n * 0.8\<rfloor>\<close> and the fixed reason string;
  otherwise base and final are both \<open>5000 * n\<close> and there is no reason.
\<close>

theorem calculate_price_value:
  assumes "625 * \<bar>n\<bar> < 2 ^ 53"
  shows "calculate_price usr n =
           (if endswith (lower (user.email usr)) ''.edu''
            then Inr (5000 * n, \<lfloor>5000 * real_of_int n * 0.8\<rfloor>, Some ''Student .edu discount (20%)'')
            else Inr (5000 * n, 5000 * n, None))"
proof -
  have fl: "\<lfloor>5000 * real_of_int n * 0.8\<rfloor> = 4000 * n" by (rule floor_times_0_8)
  show ?thesis
    unfolding fl using int_times_0_8_exact [OF assms]
    by (simp add: calculate_price_def BASE_PRICE_PER_SEAT_def Let_def)
qed

theorem calculate_price_value_witness:
  "625 * \<bar>3 :: int\<bar> < 2 ^ 53 \<and>
   calculate_price ann 3 = Inr (15000, 12000, Some ''Student .edu discount (20%)'')"
  using calculate_price_value [of 3 ann]
  by (simp add: ann_def endswith_def lower_def lower_char_def)

text \<open>
  Beyond that bound the claim fails: for 14411518807587 seats the product \<open>5000 * n\<close> is
  no double, and the final price is 8 more than \<open>\<lfloor>5000 * n * 0.8\<rfloor>\<close>.
\<close>

theorem calculate_price_counterexample:
  "calculate_price ann 14411518807587 =
     Inr (72057594037935000, 57646075230348008, Some ''Student .edu discount (20%)'') \<and>
   \<lfloor>5000 * real_of_int 14411518807587 * 0.8\<rfloor> = 57646075230348000"
  by (simp add: calculate_price_def BASE_PRICE_PER_SEAT_def ann_def endswith_def lower_def
      lower_char_def int_times_0_8_def round53_def bit_length.simps DOUBLE_0_8_def Let_def
      floor_times_0_8)

section \<open>Bookings\<close>

lemmas session_defs = begin_session_def commit_def teardown_def

lemma create_booking_unfold:
  assumes "booking_body.user_id data = Some uid"
    and "find (\<lambda>u. user.id u = uid) (users db) = Some usr"
    and "booking_body.flight_id data = Some fid"
    and "find (\<lambda>f. flight.id f = fid) (flights db) = Some flt"
    and "py_int (seats_requested data) = Inr n"
  shows "create_booking db now data =
           (if n \<le> 0 then (Fail 400 ''Number of seats must be positive'', db)
            else if flight.available_seats flt < n
            then (Fail 400 ''Not enough seats available'', db)
            else (case calculate_price usr n of
                    Inl e \<Rightarrow> (Uncaught e, db)
                  | Inr (base, final, reason) \<Rightarrow>
                      (Reply 201 (new_booking db now usr flt n base final reason),
                       booked db flt n (new_booking db now usr flt n base final reason))))"
  using assms
  by (simp add: create_booking_def session_defs Let_def new_booking_def booked_def
      seats_requested_def split: sum.splits prod.splits)

lemma create_booking_reply:
  assumes "create_booking db now data = (Reply c b, db')"
  shows "\<exists>uid usr fid flt n base final reason.
           booking_body.user_id data = Some uid \<and>
           find (\<lambda>u. user.id u = uid) (users db) = Some usr \<and>
           booking_body.flight_id data = Some fid \<and>
           find (\<lambda>f. flight.id f = fid) (flights db) = Some flt \<and>
           py_int (seats_requested data) = Inr n \<and>
           0 < n \<and> n \<le> flight.available_seats flt \<and>
           calculate_price usr n = Inr (base, final, reason) \<and>
           c = 201 \<and> b = new_booking db now usr flt n base final reason \<and>
           db' = booked db flt n b"
  using assms
  by (auto simp: create_booking_def session_defs Let_def new_booking_def booked_def
      seats_requested_def split: option.splits sum.splits prod.splits if_splits)

lemma create_booking_no_reply:
  assumes "create_booking db now data = (r, db')" and "\<forall>c b. r \<noteq> Reply c b"
  shows "db' = db"
  using assms
  by (auto simp: create_booking_def session_defs Let_def
      split: option.splits sum.splits prod.splits if_splits)

lemma find_update_rows:
  assumes "\<And>x. P (g x) = P x"
  shows "find P (update_rows P g xs) = map_option g (find P xs)"
  by (induction xs) (simp_all add: update_rows_def assms)

lemma find_Some_P: "find P xs = Some x \<Longrightarrow> P x"
  by (induction xs) (auto split: if_splits)

lemma calculate_price_le:
  assumes "0 \<le> n" and "calculate_price usr n = Inr (base, final, reason)"
  shows "final \<le> base"
proof (cases "endswith (lower (user.email usr)) ''.edu''")
  case True
  with assms(2) have "int_times_0_8 (5000 * n) = Inr final" and "base = 5000 * n"
    by (auto simp: calculate_price_def BASE_PRICE_PER_SEAT_def Let_def split: sum.splits)
  moreover have "0 \<le> 5000 * n" using assms(1) by simp
  ultimately show ?thesis using int_times_0_8_le by blast
next
  case False
  with assms(2) show ?thesis
    by (auto simp: calculate_price_def BASE_PRICE_PER_SEAT_def Let_def)
qed

lemma booked_seats:
  assumes "find (\<lambda>f. flight.id f = fid) (flights db) = Some flt"
  shows "find (\<lambda>f. flight.id f = fid) (flights (booked db flt n b)) =
           Some (flt\<lparr>flight.available_seats := flight.available_seats flt - n\<rparr>)"
proof -
  from assms have id: "flight.id flt = fid" by (rule find_Some_P)
  have "find (\<lambda>f. flight.id f = fid)
          (update_rows (\<lambda>f. flight.id f = fid)
             (\<lambda>f. f\<lparr>flight.available_seats := flight.available_seats flt - n\<rparr>) (flights db)) =
        map_option (\<lambda>f. f\<lparr>flight.available_seats := flight.available_seats flt - n\<rparr>)
          (find (\<lambda>f. flight.id f = fid) (flights db))"
    by (rule find_update_rows) simp
  then show ?thesis using assms id by (simp add: booked_def)
qed

text \<open>
  Claim C2. For every call of \<open>create_booking\<close> that answers with a reply: the status is
  201; the flight found under the requested key has, afterwards, its \<open>available_seats\<close>
  lowered by the number of seats; the reply's booking is appended to the bookings, with
  status \<open>Confirmed\<close>, a final price not above its base price, and the prices and reason
  that \<open>calculate_price\<close> gives for the user and the number of seats. Every call that
  does not answer with a reply leaves the store as it was: the decrement and the new
  booking are committed together or not at all.
\<close>

theorem create_booking_atomic:
  assumes "create_booking db now data = (r, db')"
  shows "(\<forall>c b. r = Reply c b \<longrightarrow>
            (\<exists>uid usr fid flt n.
               booking_body.user_id data = Some uid \<and>
               find (\<lambda>u. user.id u = uid) (users db) = Some usr \<and>
               booking_body.flight_id data = Some fid \<and>
               find (\<lambda>f. flight.id f = fid) (flights db) = Some flt \<and>
               py_int (seats_requested data) = Inr n \<and>
               c = 201 \<and>
               find (\<lambda>f. flight.id f = fid) (flights db') =
                 Some (flt\<lparr>flight.available_seats := flight.available_seats flt - n\<rparr>) \<and>
               bookings db' = bookings db @ [b] \<and>
               booking.user_id b = uid \<and> booking.flight_id b = fid \<and>
               booking.num_seats b = n \<and> booking.status b = ''Confirmed'' \<and>
               booking.final_price b \<le> booking.base_price b \<and>
               calculate_price usr n =
                 Inr (booking.base_price b, booking.final_price b, booking.discount_reason b))) \<and>
         ((\<forall>c b. r \<noteq> Reply c b) \<longrightarrow> db' = db)"
proof (intro conjI allI impI)
  fix c b
  assume "r = Reply c b"
  with assms have "create_booking db now data = (Reply c b, db')" by simp
  from create_booking_reply [OF this]
  obtain uid usr fid flt n base final reason where
    f: "booking_body.user_id data = Some uid"
       "find (\<lambda>u. user.id u = uid) (users db) = Some usr"
       "booking_body.flight_id data = Some fid"
       "find (\<lambda>f. flight.id f = fid) (flights db) = Some flt"
       "py_int (seats_requested data) = Inr n"
    and n: "0 < n" "n \<le> flight.available_seats flt"
    and p: "calculate_price usr n = Inr (base, final, reason)"
    and c: "c = 201" and b: "b = new_booking db now usr flt n base final reason"
    and db': "db' = booked db flt n b"
    by blast
  from n(1) p have le: "final \<le> base" using calculate_price_le [of n usr base final reason] by simp
  have uid: "user.id usr = uid" using f(2) by (rule find_Some_P)
  have fid: "flight.id flt = fid" using f(4) by (rule find_Some_P)
  have seats: "find (\<lambda>f. flight.id f = fid) (flights db') =
      Some (flt\<lparr>flight.available_seats := flight.available_seats flt - n\<rparr>)"
    unfolding db' using f(4) by (rule booked_seats)
  have bk: "bookings db' = bookings db @ [b]" by (simp add: db' booked_def)
  have fields: "booking.user_id b = uid" "booking.flight_id b = fid" "booking.num_seats b = n"
    "booking.status b = ''Confirmed''" "booking.base_price b = base" "booking.final_price b = final"
    "booking.discount_reason b = reason"
    by (simp_all add: b new_booking_def uid fid)
  show "\<exists>uid usr fid flt n.
               booking_body.user_id data = Some uid \<and>
               find (\<lambda>u. user.id u = uid) (users db) = Some usr \<and>
               booking_body.flight_id data = Some fid \<and>
               find (\<lambda>f. flight.id f = fid) (flights db) = Some flt \<and>
               py_int (seats_requested data) = Inr n \<and>
               c = 201 \<and>
               find (\<lambda>f. flight.id f = fid) (flights db') =
                 Some (flt\<lparr>flight.available_seats := flight.available_seats flt - n\<rparr>) \<and>
               bookings db' = bookings db @ [b] \<and>
               booking.user_id b = uid \<and> booking.flight_id b = fid \<and>
               booking.num_seats b = n \<and> booking.status b = ''Confirmed'' \<and>
               booking.final_price b \<le> booking.base_price b \<and>
               calculate_price usr n =
                 Inr (booking.base_price b, booking.final_price b, booking.discount_reason b)"
    using f c seats bk fields le p by auto
next
  assume "\<forall>c b. r \<noteq> Reply c b"
  with assms show "db' = db" by (rule create_booking_no_reply)
qed

text \<open>
  Claim C3. When the user and the flight exist and \<open>num_seats\<close> converts to the integer
  \<open>n\<close>: for \<open>1 \<le> n\<close> and fewer than \<open>n\<close> available seats the call fails with status 400
  and the message for insufficient seats; for \<open>n \<le> 0\<close> it fails with status 400 and the
  validation message. In both cases the store is unchanged, so no booking is created
  and \<open>available_seats\<close> keeps its value.
\<close>

theorem create_booking_rejects:
  assumes "booking_body.user_id data = Some uid"
    and "find (\<lambda>u. user.id u = uid) (users db) = Some usr"
    and "booking_body.flight_id data = Some fid"
    and "find (\<lambda>f. flight.id f = fid) (flights db) = Some flt"
    and "py_int (seats_requested data) = Inr n"
  shows "(1 \<le> n \<and> flight.available_seats flt < n \<longrightarrow>
            create_booking db now data = (Fail 400 ''Not enough seats available'', db)) \<and>
         (n \<le> 0 \<longrightarrow>
            create_booking db now data = (Fail 400 ''Number of seats must be positive'', db))"
  using create_booking_unfold [OF assms, of now] by auto

lemma calculate_price_one:
  "\<exists>final reason. calculate_price usr 1 = Inr (5000, final, reason)"
  using int_times_0_8_exact [of 1]
  by (simp add: calculate_price_def BASE_PRICE_PER_SEAT_def Let_def)

text \<open>
  Claim C9. When the body has no \<open>num_seats\<close>, and the user and the flight exist and the
  flight has a seat left, the call succeeds, the booking it creates has \<open>num_seats = 1\<close>,
  and the flight's \<open>available_seats\<close> is lowered by exactly 1.
\<close>

theorem create_booking_default_seat:
  assumes none: "booking_body.num_seats data = None"
    and u: "booking_body.user_id data = Some uid"
           "find (\<lambda>u. user.id u = uid) (users db) = Some usr"
    and f: "booking_body.flight_id data = Some fid"
           "find (\<lambda>f. flight.id f = fid) (flights db) = Some flt"
    and avail: "1 \<le> flight.available_seats flt"
  shows "\<exists>b db'. create_booking db now data = (Reply 201 b, db') \<and>
           booking.num_seats b = 1 \<and> bookings db' = bookings db @ [b] \<and>
           find (\<lambda>f. flight.id f = fid) (flights db') =
             Some (flt\<lparr>flight.available_seats := flight.available_seats flt - 1\<rparr>)"
proof -
  from none have n: "py_int (seats_requested data) = Inr 1" by (simp add: seats_requested_def)
  obtain final reason where p: "calculate_price usr 1 = Inr (5000, final, reason)"
    using calculate_price_one by blast
  define b where "b = new_booking db now usr flt 1 5000 final reason"
  have "create_booking db now data = (Reply 201 b, booked db flt 1 b)"
    using create_booking_unfold [OF u f n, of now] avail p by (simp add: b_def)
  moreover have "booking.num_seats b = 1" by (simp add: b_def new_booking_def)
  moreover have "bookings (booked db flt 1 b) = bookings db @ [b]" by (simp add: booked_def)
  moreover have "find (\<lambda>f. flight.id f = fid) (flights (booked db flt 1 b)) =
      Some (flt\<lparr>flight.available_seats := flight.available_seats flt - 1\<rparr>)"
    using f(2) by (rule booked_seats)
  ultimately show ?thesis by blast
qed

text \<open>Evaluation of the handlers on the example data.\<close>

lemmas demo_defs = ann_def bob_def del_bom_def demo_db_def book3_def booking3_def demo_db7_def
  book8_def book_default_def

lemmas eval_defs = create_booking_def session_defs seats_requested_def calculate_price_def
  BASE_PRICE_PER_SEAT_def endswith_def lower_def lower_char_def update_rows_def Let_def

theorem create_booking_atomic_witness:
  "create_booking demo_db 5 book3 = (Reply 201 booking3, demo_db7) \<and>
   find (\<lambda>f. flight.id f = 1) (flights demo_db7) = Some (del_bom\<lparr>flight.available_seats := 7\<rparr>) \<and>
   bookings demo_db7 = bookings demo_db @ [booking3] \<and>
   booking.final_price booking3 \<le> booking.base_price booking3"
proof -
  have h: "create_booking demo_db 5 book3 = (Reply 201 booking3, demo_db7)"
    by (simp add: demo_defs eval_defs)
  from create_booking_atomic [OF h] show ?thesis
    using h by (auto simp: demo_defs)
qed

theorem create_booking_rejects_witness:
  "create_booking demo_db7 6 book8 = (Fail 400 ''Not enough seats available'', demo_db7)"
proof -
  have "booking_body.user_id book8 = Some 2" by (simp add: demo_defs)
  moreover have "find (\<lambda>u. user.id u = 2) (users demo_db7) = Some bob" by (simp add: demo_defs)
  moreover have "booking_body.flight_id book8 = Some 1" by (simp add: demo_defs)
  moreover have "find (\<lambda>f. flight.id f = 1) (flights demo_db7) =
      Some (del_bom\<lparr>flight.available_seats := 7\<rparr>)" by (simp add: demo_defs)
  moreover have "py_int (seats_requested book8) = Inr 8" by (simp add: demo_defs seats_requested_def)
  ultimately have "(1 \<le> (8::int) \<and> flight.available_seats (del_bom\<lparr>flight.available_seats := 7\<rparr>) < 8 \<longrightarrow>
            create_booking demo_db7 6 book8 = (Fail 400 ''Not enough seats available'', demo_db7)) \<and>
         ((8::int) \<le> 0 \<longrightarrow>
            create_booking demo_db7 6 book8 = (Fail 400 ''Number of seats must be positive'', demo_db7))"
    by (rule create_booking_rejects)
  then show ?thesis by simp
qed

theorem create_booking_default_seat_witness:
  "\<exists>b db'. create_booking demo_db 5 book_default = (Reply 201 b, db') \<and>
     booking.num_seats b = 1 \<and> bookings db' = bookings demo_db @ [b] \<and>
     find (\<lambda>f. flight.id f = 1) (flights db') = Some (del_bom\<lparr>flight.available_seats := 9\<rparr>)"
proof -
  have "booking_body.num_seats book_default = None" by (simp add: demo_defs)
  moreover have "booking_body.user_id book_default = Some 1" by (simp add: demo_defs)
  moreover have "find (\<lambda>u. user.id u = 1) (users demo_db) = Some ann" by (simp add: demo_defs)
  moreover have "booking_body.flight_id book_default = Some 1" by (simp add: demo_defs)
  moreover have "find (\<lambda>f. flight.id f = 1) (flights demo_db) = Some del_bom" by (simp add: demo_defs)
  moreover have "1 \<le> flight.available_seats del_bom" by (simp add: demo_defs)
  ultimately have "\<exists>b db'. create_booking demo_db 5 book_default = (Reply 201 b, db') \<and>
           booking.num_seats b = 1 \<and> bookings db' = bookings demo_db @ [b] \<and>
           find (\<lambda>f. flight.id f = 1) (flights db') =
             Some (del_bom\<lparr>flight.available_seats := flight.available_seats del_bom - 1\<rparr>)"
    by (rule create_booking_default_seat)
  then show ?thesis by (simp add: del_bom_def)
qed

section \<open>Flights\<close>

lemma create_flight_missing:
  "\<not> required_fields data \<Longrightarrow>
     create_flight airports db data = (Fail 400 ''Missing required flight fields'', db)"
  by (simp add: create_flight_def session_defs)

lemma create_flight_unfold:
  assumes "flight_body.code data = Some c" "c \<noteq> []"
    and "flight_body.source data = Some src" "src \<noteq> []"
    and "flight_body.destination data = Some dst" "dst \<noteq> []"
    and "flight_body.departure_time data = Some dep" "dep \<noteq> []"
    and "flight_body.arrival_time data = Some arr" "arr \<noteq> []"
    and "flight_body.total_seats data = Some v" "truthy v"
  shows "create_flight airports db data =
           (if src \<notin> valid_codes airports \<or> dst \<notin> valid_codes airports
            then (Fail 400 ''Invalid airport code'', db)
            else if src = dst then (Fail 400 ''Source and destination cannot be same'', db)
            else (case py_int v of
                    Inl e \<Rightarrow> (Uncaught e, db)
                  | Inr tot \<Rightarrow>
                      (Reply 201 (new_flight db c src dst dep arr tot (flight_body.status data)),
                       db\<lparr>flights := flights db @
                            [new_flight db c src dst dep arr tot (flight_body.status data)]\<rparr>)))"
  using assms
  by (simp add: create_flight_def session_defs required_fields_def Let_def new_flight_def
      split: sum.splits)

lemma required_fields_cases:
  assumes "required_fields data"
  obtains c src dst dep arr v where
    "flight_body.code data = Some c" "c \<noteq> []"
    "flight_body.source data = Some src" "src \<noteq> []"
    "flight_body.destination data = Some dst" "dst \<noteq> []"
    "flight_body.departure_time data = Some dep" "dep \<noteq> []"
    "flight_body.arrival_time data = Some arr" "arr \<noteq> []"
    "flight_body.total_seats data = Some v" "truthy v"
proof -
  have str: "\<And>x. truthy_str x \<Longrightarrow> \<exists>s. x = Some s \<and> s \<noteq> []"
    by (case_tac x) simp_all
  have fld: "\<And>x. truthy_field x \<Longrightarrow> \<exists>v. x = Some v \<and> truthy v"
    by (case_tac x) simp_all
  from assms show ?thesis
    unfolding required_fields_def using that by (metis str fld)
qed

lemma create_flight_reply:
  assumes "create_flight airports db data = (Reply k f, db')"
  shows "\<exists>c src dst dep arr v tot.
           flight_body.code data = Some c \<and> flight_body.source data = Some src \<and>
           flight_body.destination data = Some dst \<and>
           flight_body.departure_time data = Some dep \<and>
           flight_body.arrival_time data = Some arr \<and>
           flight_body.total_seats data = Some v \<and> py_int v = Inr tot \<and>
           required_fields data \<and> src \<in> valid_codes airports \<and> dst \<in> valid_codes airports \<and>
           src \<noteq> dst \<and> k = 201 \<and>
           f = new_flight db c src dst dep arr tot (flight_body.status data) \<and>
           db' = db\<lparr>flights := flights db @ [f]\<rparr>"
proof (cases "required_fields data")
  case False
  with assms show ?thesis by (simp add: create_flight_missing)
next
  case True
  then obtain c src dst dep arr v where
    d: "flight_body.code data = Some c" "c \<noteq> []"
    "flight_body.source data = Some src" "src \<noteq> []"
    "flight_body.destination data = Some dst" "dst \<noteq> []"
    "flight_body.departure_time data = Some dep" "dep \<noteq> []"
    "flight_body.arrival_time data = Some arr" "arr \<noteq> []"
    "flight_body.total_seats data = Some v" "truthy v"
    by (rule required_fields_cases)
  from assms show ?thesis
    unfolding create_flight_unfold [OF d] using d True
    by (auto split: if_splits sum.splits)
qed

lemma create_flight_no_reply:
  assumes "create_flight airports db data = (r, db')" and "\<forall>k f. r \<noteq> Reply k f"
  shows "db' = db"
proof (cases "required_fields data")
  case False
  with assms show ?thesis by (simp add: create_flight_missing)
next
  case True
  then obtain c src dst dep arr v where
    d: "flight_body.code data = Some c" "c \<noteq> []"
    "flight_body.source data = Some src" "src \<noteq> []"
    "flight_body.destination data = Some dst" "dst \<noteq> []"
    "flight_body.departure_time data = Some dep" "dep \<noteq> []"
    "flight_body.arrival_time data = Some arr" "arr \<noteq> []"
    "flight_body.total_seats data = Some v" "truthy v"
    by (rule required_fields_cases)
  from assms show ?thesis
    unfolding create_flight_unfold [OF d]
    by (auto split: if_splits sum.splits)
qed


lemmas flight_eval_defs = create_flight_def update_flight_def set_fields_def required_fields_def
  valid_codes_def session_defs update_rows_def Let_def

lemmas flight_demo_defs = sample_airports_def del_bom_body_def users_db_def overbook_def delay_def


section \<open>The seat invariant\<close>

lemma fold_max_ge: "(i::int) \<le> fold max ids i"
proof (induction ids arbitrary: i)
  case Nil
  show ?case by simp
next
  case (Cons j ids)
  have "i \<le> max j i" by simp
  also have "\<dots> \<le> fold max ids (max j i)" by (rule Cons.IH)
  finally show ?case by simp
qed

lemma fold_max_mem: "(j::int) \<in> set ids \<Longrightarrow> j \<le> fold max ids i"
proof (induction ids arbitrary: i)
  case Nil
  then show ?case by simp
next
  case (Cons k ids)
  show ?case
  proof (cases "j = k")
    case True
    have "j \<le> max k i" using True by simp
    also have "\<dots> \<le> fold max ids (max k i)" by (rule fold_max_ge)
    finally show ?thesis by simp
  next
    case False
    with Cons.prems have "j \<in> set ids" by simp
    then have "j \<le> fold max ids (max k i)" by (rule Cons.IH)
    then show ?thesis by simp
  qed
qed

lemma next_id_fresh: "i \<in> set ids \<Longrightarrow> i < next_id ids"
proof (cases ids)
  case Nil
  assume "i \<in> set ids"
  with Nil show ?thesis by simp
next
  case (Cons j js)
  assume "i \<in> set ids"
  with Cons have "i = j \<or> i \<in> set js" by simp
  then have "i \<le> fold max js j"
    using fold_max_ge [of j js] fold_max_mem [of i js j] by auto
  with Cons show ?thesis by simp
qed

lemma next_id_notin: "next_id ids \<notin> set ids"
  using next_id_fresh [of "next_id ids" ids] by auto

lemma map_id_update_rows:
  assumes "\<And>x. k (g x) = k x"
  shows "map k (update_rows P g xs) = map k xs"
  by (induction xs) (simp_all add: update_rows_def assms)

lemma list_all_update_rows:
  assumes "list_all Q xs" and "\<And>x. x \<in> set xs \<Longrightarrow> P x \<Longrightarrow> Q (g x)"
  shows "list_all Q (update_rows P g xs)"
  using assms by (induction xs) (auto simp: update_rows_def)

lemma find_Some_mem: "find P xs = Some x \<Longrightarrow> x \<in> set xs"
  by (induction xs) (auto split: if_splits)

lemma set_fields_keeps:
  assumes "flight_update.total_seats data = None" "flight_update.available_seats data = None"
  shows "flight.id (set_fields data f) = flight.id f"
    and "flight.total_seats (set_fields data f) = flight.total_seats f"
    and "flight.available_seats (set_fields data f) = flight.available_seats f"
  using assms by (simp_all add: set_fields_def Let_def split: option.splits)

lemma update_flight_store:
  "snd (update_flight airports db fid data) = db \<or>
   snd (update_flight airports db fid data) =
     db\<lparr>flights := update_rows (\<lambda>f. flight.id f = fid) (set_fields data) (flights db)\<rparr>"
proof (cases "find (\<lambda>f. flight.id f = fid) (flights db)")
  case None
  then show ?thesis by (simp add: update_flight_def session_defs)
next
  case (Some flt)
  then have "flight.id flt = fid" by (rule find_Some_P)
  with Some show ?thesis by (simp add: update_flight_def session_defs Let_def)
qed

lemma create_flight_store:
  "snd (create_flight airports db data) = db \<or>
   (\<exists>c src dst dep arr v tot.
      flight_body.total_seats data = Some v \<and> py_int v = Inr tot \<and>
      snd (create_flight airports db data) =
        db\<lparr>flights := flights db @
             [new_flight db c src dst dep arr tot (flight_body.status data)]\<rparr>)"
proof (cases "create_flight airports db data")
  case (Pair r db')
  show ?thesis
  proof (cases "\<exists>k f. r = Reply k f")
    case True
    then obtain k f where "r = Reply k f" by blast
    with Pair have "create_flight airports db data = (Reply k f, db')" by simp
    from create_flight_reply [OF this]
    obtain c src dst dep arr v tot where
      "flight_body.total_seats data = Some v" "py_int v = Inr tot"
      "f = new_flight db c src dst dep arr tot (flight_body.status data)"
      "db' = db\<lparr>flights := flights db @ [f]\<rparr>"
      by blast
    with Pair have "flight_body.total_seats data = Some v \<and> py_int v = Inr tot \<and>
      snd (create_flight airports db data) =
        db\<lparr>flights := flights db @
             [new_flight db c src dst dep arr tot (flight_body.status data)]\<rparr>"
      by simp
    then show ?thesis by blast
  next
    case False
    then have "\<forall>k f. r \<noteq> Reply k f" by simp
    with Pair have "db' = db" by (rule create_flight_no_reply)
    with Pair show ?thesis by simp
  qed
qed

lemma create_booking_store:
  "snd (create_booking db now data) = db \<or>
   (\<exists>flt fid n b.
      find (\<lambda>f. flight.id f = fid) (flights db) = Some flt \<and>
      0 < n \<and> n \<le> flight.available_seats flt \<and>
      snd (create_booking db now data) = booked db flt n b)"
proof (cases "create_booking db now data")
  case (Pair r db')
  show ?thesis
  proof (cases "\<exists>k b. r = Reply k b")
    case True
    then obtain k b where "r = Reply k b" by blast
    with Pair have "create_booking db now data = (Reply k b, db')" by simp
    from create_booking_reply [OF this]
    obtain fid flt n where
      "find (\<lambda>f. flight.id f = fid) (flights db) = Some flt"
      "0 < n" "n \<le> flight.available_seats flt" "db' = booked db flt n b"
      by blast
    with Pair have "find (\<lambda>f. flight.id f = fid) (flights db) = Some flt \<and>
      0 < n \<and> n \<le> flight.available_seats flt \<and>
      snd (create_booking db now data) = booked db flt n b"
      by simp
    then show ?thesis by blast
  next
    case False
    then have "\<forall>k b. r \<noteq> Reply k b" by simp
    with Pair have "db' = db" by (rule create_booking_no_reply)
    with Pair show ?thesis by simp
  qed
qed

lemma distinct_key_eq:
  assumes "distinct (map k xs)" "x \<in> set xs" "y \<in> set xs" "k x = k y"
  shows "x = y"
  using assms by (meson distinct_map inj_onD)

lemma step_create_flight:
  assumes wf: "well_formed db" and ok: "seat_safe (CreateFlight data)"
  shows "well_formed (snd (create_flight airports db data))"
proof -
  from create_flight_store [of airports db data]
  consider "snd (create_flight airports db data) = db"
    | c src dst dep arr v tot where
      "flight_body.total_seats data = Some v" "py_int v = Inr tot"
      "snd (create_flight airports db data) =
         db\<lparr>flights := flights db @
              [new_flight db c src dst dep arr tot (flight_body.status data)]\<rparr>"
    by blast
  then show ?thesis
  proof cases
    case 1
    with wf show ?thesis by simp
  next
    case 2
    from ok 2(1,2) have tot: "0 \<le> tot" by simp
    have fresh: "flight.id (new_flight db c src dst dep arr tot (flight_body.status data))
        \<notin> set (map flight.id (flights db))"
      by (simp add: new_flight_def next_id_notin del: set_map)
    have "seats_ok (new_flight db c src dst dep arr tot (flight_body.status data))"
      using tot by (simp add: seats_ok_def new_flight_def)
    with wf fresh show ?thesis
      unfolding 2(3) by (simp add: well_formed_def flight_keys_ok_def seats_invariant_def)
  qed
qed

lemma step_update_flight:
  assumes wf: "well_formed db" and ok: "seat_safe (UpdateFlight fid data)"
  shows "well_formed (snd (update_flight airports db fid data))"
proof -
  from ok have none: "flight_update.total_seats data = None"
    "flight_update.available_seats data = None" by simp_all
  from update_flight_store [of airports db fid data]
  consider "snd (update_flight airports db fid data) = db"
    | "snd (update_flight airports db fid data) =
        db\<lparr>flights := update_rows (\<lambda>f. flight.id f = fid) (set_fields data) (flights db)\<rparr>"
    by blast
  then show ?thesis
  proof cases
    case 1
    with wf show ?thesis by simp
  next
    case 2
    have ids: "map flight.id (update_rows (\<lambda>f. flight.id f = fid) (set_fields data) (flights db))
        = map flight.id (flights db)"
      by (rule map_id_update_rows) (rule set_fields_keeps(1) [OF none])
    have "list_all seats_ok
        (update_rows (\<lambda>f. flight.id f = fid) (set_fields data) (flights db))"
    proof (rule list_all_update_rows)
      show "list_all seats_ok (flights db)"
        using wf by (simp add: well_formed_def seats_invariant_def)
    next
      fix x assume "x \<in> set (flights db)"
      with wf have "seats_ok x" by (simp add: well_formed_def seats_invariant_def list_all_iff)
      then show "seats_ok (set_fields data x)"
        by (simp add: seats_ok_def set_fields_keeps [OF none])
    qed
    with wf ids show ?thesis
      unfolding 2 by (simp add: well_formed_def flight_keys_ok_def seats_invariant_def)
  qed
qed

lemma step_create_booking:
  assumes wf: "well_formed db"
  shows "well_formed (snd (create_booking db now data))"
proof -
  from create_booking_store [of db now data]
  consider "snd (create_booking db now data) = db"
    | flt fid n b where
      "find (\<lambda>f. flight.id f = fid) (flights db) = Some flt"
      "0 < n" "n \<le> flight.available_seats flt"
      "snd (create_booking db now data) = booked db flt n b"
    by blast
  then show ?thesis
  proof cases
    case 1
    with wf show ?thesis by simp
  next
    case 2
    from 2(1) have mem: "flt \<in> set (flights db)" by (rule find_Some_mem)
    from wf have dist: "distinct (map flight.id (flights db))"
      and all: "list_all seats_ok (flights db)"
      by (simp_all add: well_formed_def flight_keys_ok_def seats_invariant_def)
    from all mem have flt: "seats_ok flt" by (simp add: list_all_iff)
    have ids: "map flight.id (update_rows (\<lambda>f. flight.id f = flight.id flt)
          (\<lambda>f. f\<lparr>flight.available_seats := flight.available_seats flt - n\<rparr>) (flights db))
        = map flight.id (flights db)"
      by (rule map_id_update_rows) simp
    have "list_all seats_ok (update_rows (\<lambda>f. flight.id f = flight.id flt)
          (\<lambda>f. f\<lparr>flight.available_seats := flight.available_seats flt - n\<rparr>) (flights db))"
    proof (rule list_all_update_rows [OF all])
      fix x assume x: "x \<in> set (flights db)" and "flight.id x = flight.id flt"
      with dist mem have "x = flt" by (auto intro: distinct_key_eq [where k = flight.id])
      with flt 2(2,3) show "seats_ok (x\<lparr>flight.available_seats := flight.available_seats flt - n\<rparr>)"
        by (simp add: seats_ok_def)
    qed
    with ids dist show ?thesis
      unfolding 2(4) by (simp add: well_formed_def flight_keys_ok_def seats_invariant_def booked_def)
  qed
qed

lemma step_well_formed:
  assumes "well_formed db" "seat_safe call"
  shows "well_formed (step airports db call)"
  using assms
  by (cases call) (simp_all add: step_create_flight step_update_flight step_create_booking)

lemma run_well_formed:
  assumes "well_formed db" "list_all seat_safe calls"
  shows "well_formed (run airports db calls)"
  using assms unfolding run_def
proof (induction calls arbitrary: db)
  case Nil
  then show ?case by simp
next
  case (Cons call calls)
  from Cons.prems have "well_formed (step airports db call)"
    by (simp add: step_well_formed)
  with Cons show ?case by simp
qed

text \<open>
  Claim C1 (amended). From a store whose flight keys are unique and whose flights satisfy
  \<open>0 \<le> available_seats \<le> total_seats\<close>, every sequence of \<open>createFlight\<close>, \<open>updateFlight\<close> and
  \<open>createBooking\<close> calls in which no update names \<open>total_seats\<close> or \<open>available_seats\<close> and
  no creation has a negative \<open>total_seats\<close> keeps the invariant in every state it passes
  through.
\<close>

theorem seats_invariant_reachable:
  assumes "flight_keys_ok db" and "seats_invariant db" and "list_all seat_safe calls"
  shows "seats_invariant (run airports db (take k calls))"
proof -
  from assms(1,2) have "well_formed db" by (simp add: well_formed_def)
  moreover from assms(3) have "list_all seat_safe (take k calls)"
    by (auto simp: list_all_iff dest: in_set_takeD)
  ultimately have "well_formed (run airports db (take k calls))" by (rule run_well_formed)
  then show ?thesis by (simp add: well_formed_def)
qed

theorem seats_invariant_reachable_witness:
  "flight_keys_ok users_db \<and> seats_invariant users_db \<and>
   list_all seat_safe [CreateFlight del_bom_body, CreateBooking 5 book3, UpdateFlight 1 delay] \<and>
   seats_invariant
     (run sample_airports users_db
        (take 3 [CreateFlight del_bom_body, CreateBooking 5 book3, UpdateFlight 1 delay])) \<and>
   flights (run sample_airports users_db
        [CreateFlight del_bom_body, CreateBooking 5 book3, UpdateFlight 1 delay]) =
     [del_bom\<lparr>flight.available_seats := 7, flight.status := ''Delayed''\<rparr>]"
proof -
  have a: "flight_keys_ok users_db" "seats_invariant users_db"
    by (simp_all add: flight_keys_ok_def seats_invariant_def users_db_def)
  have b: "list_all seat_safe
      [CreateFlight del_bom_body, CreateBooking 5 book3, UpdateFlight 1 delay]"
    by (simp add: del_bom_body_def delay_def)
  have c: "flights (run sample_airports users_db
        [CreateFlight del_bom_body, CreateBooking 5 book3, UpdateFlight 1 delay]) =
     [del_bom\<lparr>flight.available_seats := 7, flight.status := ''Delayed''\<rparr>]"
    by (simp add: run_def flight_eval_defs flight_demo_defs demo_defs eval_defs)
  from seats_invariant_reachable [OF a b, of sample_airports 3] a b c show ?thesis by simp
qed

text \<open>
  The claim as stated fails: an update may set \<open>available_seats\<close> above \<open>total_seats\<close>.
\<close>

theorem seats_invariant_counterexample:
  "\<not> seats_invariant
       (run sample_airports users_db [CreateFlight del_bom_body, UpdateFlight 1 overbook]) \<and>
   flights (run sample_airports users_db [CreateFlight del_bom_body, UpdateFlight 1 overbook]) =
     [del_bom\<lparr>flight.available_seats := 11\<rparr>]"
  by (simp add: run_def flight_eval_defs flight_demo_defs demo_defs seats_invariant_def seats_ok_def)

section \<open>Registration\<close>

lemma register_missing:
  "\<not> all_present data \<Longrightarrow>
     register db data = (Fail 400 ''name, email, password, phone and otp are required'', db)"
  by (simp add: register_def session_defs)

lemma all_present_cases:
  assumes "all_present data"
  obtains nm em pw ph oc where
    "register_body.name data = Some nm" "nm \<noteq> []"
    "register_body.email data = Some em" "em \<noteq> []"
    "register_body.password data = Some pw" "pw \<noteq> []"
    "register_body.phone data = Some ph" "ph \<noteq> []"
    "register_body.otp data = Some oc" "truthy oc"
proof -
  have str: "\<And>x. truthy_str x \<Longrightarrow> \<exists>s. x = Some s \<and> s \<noteq> []"
    by (case_tac x) simp_all
  have fld: "\<And>x. truthy_field x \<Longrightarrow> \<exists>v. x = Some v \<and> truthy v"
    by (case_tac x) simp_all
  from assms show ?thesis
    unfolding all_present_def using that by (metis str fld)
qed

lemma register_unfold:
  assumes "register_body.name data = Some nm" "nm \<noteq> []"
    and "register_body.email data = Some em" "em \<noteq> []"
    and "register_body.password data = Some pw" "pw \<noteq> []"
    and "register_body.phone data = Some ph" "ph \<noteq> []"
    and "register_body.otp data = Some oc" "truthy oc"
  shows "register db data =
           (case find (\<lambda>u. user.email u = em) (users db) of
              Some u \<Rightarrow> (Fail 400 ''Email already registered'', db)
            | None \<Rightarrow>
              (case newest (filter (otp_matches ph (py_str oc)) (otp_codes db)) of
                 None \<Rightarrow> (Fail 400 ''Invalid or used OTP'', db)
               | Some found \<Rightarrow>
                 (case parse_age (register_body.age data) of
                    Inl e \<Rightarrow> (if e = ValueError then Fail 400 ''age must be a number''
                             else Uncaught e, db)
                  | Inr a \<Rightarrow>
                      (Reply 201 (new_user db nm em pw ph a),
                       db\<lparr>otp_codes := mark_used found (otp_codes db),
                          users := users db @ [new_user db nm em pw ph a]\<rparr>))))"
  using assms
  by (simp add: register_def session_defs all_present_def Let_def new_user_def owner_role_def
      mark_used_def split: option.splits sum.splits)

lemma register_reply:
  assumes "register db data = (Reply k u, db')"
  shows "\<exists>nm em pw ph oc found a.
           register_body.name data = Some nm \<and> register_body.email data = Some em \<and>
           register_body.password data = Some pw \<and> register_body.phone data = Some ph \<and>
           register_body.otp data = Some oc \<and> all_present data \<and>
           find (\<lambda>u. user.email u = em) (users db) = None \<and>
           newest (filter (otp_matches ph (py_str oc)) (otp_codes db)) = Some found \<and>
           parse_age (register_body.age data) = Inr a \<and>
           k = 201 \<and> u = new_user db nm em pw ph a \<and>
           db' = db\<lparr>otp_codes := mark_used found (otp_codes db), users := users db @ [u]\<rparr>"
proof (cases "all_present data")
  case False
  with assms show ?thesis by (simp add: register_missing)
next
  case True
  then obtain nm em pw ph oc where
    d: "register_body.name data = Some nm" "nm \<noteq> []"
    "register_body.email data = Some em" "em \<noteq> []"
    "register_body.password data = Some pw" "pw \<noteq> []"
    "register_body.phone data = Some ph" "ph \<noteq> []"
    "register_body.otp data = Some oc" "truthy oc"
    by (rule all_present_cases)
  from assms show ?thesis
    unfolding register_unfold [OF d] using d True
    by (auto split: option.splits sum.splits if_splits)
qed

lemma register_no_reply:
  assumes "register db data = (r, db')" and "\<forall>k u. r \<noteq> Reply k u"
  shows "db' = db"
proof (cases "all_present data")
  case False
  with assms show ?thesis by (simp add: register_missing)
next
  case True
  then obtain nm em pw ph oc where
    d: "register_body.name data = Some nm" "nm \<noteq> []"
    "register_body.email data = Some em" "em \<noteq> []"
    "register_body.password data = Some pw" "pw \<noteq> []"
    "register_body.phone data = Some ph" "ph \<noteq> []"
    "register_body.otp data = Some oc" "truthy oc"
    by (rule all_present_cases)
  from assms show ?thesis
    unfolding register_unfold [OF d]
    by (auto split: option.splits sum.splits if_splits)
qed

lemma newest_None: "newest xs = None \<longleftrightarrow> xs = []"
  by (induction xs) (auto split: option.splits)

lemma newest_mem: "newest xs = Some y \<Longrightarrow> y \<in> set xs"
  by (induction xs arbitrary: y) (auto split: option.splits if_splits)

lemma newest_latest:
  "newest xs = Some y \<Longrightarrow> x \<in> set xs \<Longrightarrow> otp_code.created_at x \<le> otp_code.created_at y"
proof (induction xs arbitrary: y)
  case Nil
  then show ?case by simp
next
  case (Cons z zs)
  show ?case
  proof (cases "newest zs")
    case None
    then have "zs = []" by (simp add: newest_None)
    with Cons.prems None show ?thesis by simp
  next
    case (Some w)
    have ih: "x \<in> set zs \<Longrightarrow> otp_code.created_at x \<le> otp_code.created_at w"
      using Cons.IH [OF Some] by simp
    from Cons.prems Some show ?thesis
      using ih by (auto split: if_splits)
  qed
qed

lemma mark_used_distinct:
  assumes "distinct (map otp_code.id rows)" "found \<in> set rows"
  shows "mark_used found rows =
           map (\<lambda>x. if x = found then x\<lparr>otp_code.is_used := True\<rparr> else x) rows"
proof -
  have "\<And>x. x \<in> set rows \<Longrightarrow> (otp_code.id x = otp_code.id found) = (x = found)"
    using assms by (auto dest: distinct_key_eq [where k = otp_code.id])
  then show ?thesis by (simp add: mark_used_def update_rows_def)
qed

lemma find_None_iff_all: "find P xs = None \<longleftrightarrow> (\<forall>x\<in>set xs. \<not> P x)"
  by (induction xs) auto

lemma find_append_last: "P u \<Longrightarrow> find P (xs @ [u]) \<noteq> None"
  by (simp add: find_None_iff_all)

text \<open>
  Claim C5. (1) When every code record that matches the phone and the code of the request
  is already marked used, \<open>register\<close> never replies and leaves the store as it is; if the
  required fields are present and the email is new, the answer is the 400 for an invalid
  or used code. (2) A reply marks one record used: an unused record matching phone and
  code whose \<open>created_at\<close> is largest among such records; with unique keys no other record
  changes. (3) A request whose email already belongs to a user fails with the 400 for a
  registered email, and this is what any second registration with the email of a
  successful one meets.
\<close>

theorem register_consumes_otp:
  "(register_body.phone data = Some ph \<and> register_body.otp data = Some oc \<and>
    (\<forall>x\<in>set (otp_codes db).
       otp_code.phone x = ph \<and> otp_code.code x = py_str oc \<longrightarrow> otp_code.is_used x) \<longrightarrow>
      (\<forall>k u. fst (register db data) \<noteq> Reply k u) \<and> snd (register db data) = db \<and>
      (all_present data \<and> register_body.email data = Some em \<and>
       find (\<lambda>u. user.email u = em) (users db) = None \<longrightarrow>
         register db data = (Fail 400 ''Invalid or used OTP'', db))) \<and>
   (\<forall>k u db'. register db data = (Reply k u, db') \<longrightarrow>
      (\<exists>ph oc found.
         register_body.phone data = Some ph \<and> register_body.otp data = Some oc \<and>
         found \<in> set (otp_codes db) \<and> otp_matches ph (py_str oc) found \<and>
         (\<forall>x\<in>set (otp_codes db).
            otp_matches ph (py_str oc) x \<longrightarrow> otp_code.created_at x \<le> otp_code.created_at found) \<and>
         otp_codes db' = mark_used found (otp_codes db) \<and>
         (distinct (map otp_code.id (otp_codes db)) \<longrightarrow>
            otp_codes db' =
              map (\<lambda>x. if x = found then x\<lparr>otp_code.is_used := True\<rparr> else x) (otp_codes db)))) \<and>
   (all_present data \<and> register_body.email data = Some em \<and>
    find (\<lambda>u. user.email u = em) (users db) \<noteq> None \<longrightarrow>
      register db data = (Fail 400 ''Email already registered'', db)) \<and>
   (\<forall>k u db' data2. register db data = (Reply k u, db') \<and> all_present data2 \<and>
      register_body.email data2 = register_body.email data \<longrightarrow>
      register db' data2 = (Fail 400 ''Email already registered'', db'))"
proof -
  have p1: "register_body.phone data = Some ph \<and> register_body.otp data = Some oc \<and>
    (\<forall>x\<in>set (otp_codes db).
       otp_code.phone x = ph \<and> otp_code.code x = py_str oc \<longrightarrow> otp_code.is_used x) \<longrightarrow>
      (\<forall>k u. fst (register db data) \<noteq> Reply k u) \<and> snd (register db data) = db \<and>
      (all_present data \<and> register_body.email data = Some em \<and>
       find (\<lambda>u. user.email u = em) (users db) = None \<longrightarrow>
         register db data = (Fail 400 ''Invalid or used OTP'', db))"
  proof (intro impI)
    assume a: "register_body.phone data = Some ph \<and> register_body.otp data = Some oc \<and>
      (\<forall>x\<in>set (otp_codes db).
         otp_code.phone x = ph \<and> otp_code.code x = py_str oc \<longrightarrow> otp_code.is_used x)"
    then have "filter (otp_matches ph (py_str oc)) (otp_codes db) = []"
      by (auto simp: filter_empty_conv otp_matches_def)
    then have none: "newest (filter (otp_matches ph (py_str oc)) (otp_codes db)) = None"
      by simp
    have noreply: "\<forall>k u. fst (register db data) \<noteq> Reply k u"
    proof (intro allI notI)
      fix k u
      assume "fst (register db data) = Reply k u"
      then have "register db data = (Reply k u, snd (register db data))"
        by (metis prod.collapse)
      from register_reply [OF this] a none show False by auto
    qed
    have same: "snd (register db data) = db"
    proof (rule register_no_reply)
      show "register db data = (fst (register db data), snd (register db data))" by simp
      show "\<forall>k u. fst (register db data) \<noteq> Reply k u" by (rule noreply)
    qed
    have inv: "all_present data \<and> register_body.email data = Some em \<and>
       find (\<lambda>u. user.email u = em) (users db) = None \<longrightarrow>
         register db data = (Fail 400 ''Invalid or used OTP'', db)"
    proof
      assume b: "all_present data \<and> register_body.email data = Some em \<and>
         find (\<lambda>u. user.email u = em) (users db) = None"
      then have "all_present data" by simp
      then obtain nm em' pw ph' oc' where
        d: "register_body.name data = Some nm" "nm \<noteq> []"
        "register_body.email data = Some em'" "em' \<noteq> []"
        "register_body.password data = Some pw" "pw \<noteq> []"
        "register_body.phone data = Some ph'" "ph' \<noteq> []"
        "register_body.otp data = Some oc'" "truthy oc'"
        by (rule all_present_cases)
      from a b d have e: "em' = em" "ph' = ph" "oc' = oc" by simp_all
      from b none show "register db data = (Fail 400 ''Invalid or used OTP'', db)"
        unfolding register_unfold [OF d] e by simp
    qed
    from noreply same inv
    show "(\<forall>k u. fst (register db data) \<noteq> Reply k u) \<and> snd (register db data) = db \<and>
      (all_present data \<and> register_body.email data = Some em \<and>
       find (\<lambda>u. user.email u = em) (users db) = None \<longrightarrow>
         register db data = (Fail 400 ''Invalid or used OTP'', db))"
      by (intro conjI)
  qed
  have p2: "\<forall>k u db'. register db data = (Reply k u, db') \<longrightarrow>
      (\<exists>ph oc found.
         register_body.phone data = Some ph \<and> register_body.otp data = Some oc \<and>
         found \<in> set (otp_codes db) \<and> otp_matches ph (py_str oc) found \<and>
         (\<forall>x\<in>set (otp_codes db).
            otp_matches ph (py_str oc) x \<longrightarrow> otp_code.created_at x \<le> otp_code.created_at found) \<and>
         otp_codes db' = mark_used found (otp_codes db) \<and>
         (distinct (map otp_code.id (otp_codes db)) \<longrightarrow>
            otp_codes db' =
              map (\<lambda>x. if x = found then x\<lparr>otp_code.is_used := True\<rparr> else x) (otp_codes db)))"
  proof (intro allI impI)
    fix k u db'
    assume "register db data = (Reply k u, db')"
    from register_reply [OF this]
    obtain ph oc found where
      f: "register_body.phone data = Some ph" "register_body.otp data = Some oc"
      and n: "newest (filter (otp_matches ph (py_str oc)) (otp_codes db)) = Some found"
      and db': "db' = db\<lparr>otp_codes := mark_used found (otp_codes db), users := users db @ [u]\<rparr>"
      by blast
    from newest_mem [OF n] have mem: "found \<in> set (otp_codes db)"
      and m: "otp_matches ph (py_str oc) found" by simp_all
    have latest: "\<forall>x\<in>set (otp_codes db).
        otp_matches ph (py_str oc) x \<longrightarrow> otp_code.created_at x \<le> otp_code.created_at found"
      using newest_latest [OF n] by simp
    have o: "otp_codes db' = mark_used found (otp_codes db)" by (simp add: db')
    have dist: "distinct (map otp_code.id (otp_codes db)) \<longrightarrow>
        otp_codes db' =
          map (\<lambda>x. if x = found then x\<lparr>otp_code.is_used := True\<rparr> else x) (otp_codes db)"
      using mark_used_distinct [OF _ mem] o by simp
    from f mem m latest o dist
    show "\<exists>ph oc found.
         register_body.phone data = Some ph \<and> register_body.otp data = Some oc \<and>
         found \<in> set (otp_codes db) \<and> otp_matches ph (py_str oc) found \<and>
         (\<forall>x\<in>set (otp_codes db).
            otp_matches ph (py_str oc) x \<longrightarrow> otp_code.created_at x \<le> otp_code.created_at found) \<and>
         otp_codes db' = mark_used found (otp_codes db) \<and>
         (distinct (map otp_code.id (otp_codes db)) \<longrightarrow>
            otp_codes db' =
              map (\<lambda>x. if x = found then x\<lparr>otp_code.is_used := True\<rparr> else x) (otp_codes db))"
      by blast
  qed
  have dup: "register d x = (Fail 400 ''Email already registered'', d)"
    if "all_present x" "register_body.email x = Some e"
      "find (\<lambda>u. user.email u = e) (users d) \<noteq> None" for d x e
  proof -
    from that(1) obtain nm em' pw ph' oc' where
      d: "register_body.name x = Some nm" "nm \<noteq> []"
      "register_body.email x = Some em'" "em' \<noteq> []"
      "register_body.password x = Some pw" "pw \<noteq> []"
      "register_body.phone x = Some ph'" "ph' \<noteq> []"
      "register_body.otp x = Some oc'" "truthy oc'"
      by (rule all_present_cases)
    from that d have e: "em' = e" by simp
    from that(3) show ?thesis
      unfolding register_unfold [OF d] e by auto
  qed
  have p3: "all_present data \<and> register_body.email data = Some em \<and>
    find (\<lambda>u. user.email u = em) (users db) \<noteq> None \<longrightarrow>
      register db data = (Fail 400 ''Email already registered'', db)"
    using dup by blast
  have p4: "\<forall>k u db' data2. register db data = (Reply k u, db') \<and> all_present data2 \<and>
      register_body.email data2 = register_body.email data \<longrightarrow>
      register db' data2 = (Fail 400 ''Email already registered'', db')"
  proof (intro allI impI)
    fix k u db' data2
    assume a: "register db data = (Reply k u, db') \<and> all_present data2 \<and>
      register_body.email data2 = register_body.email data"
    then have "register db data = (Reply k u, db')" by simp
    from register_reply [OF this]
    obtain nm e pw ph a' where
      f: "register_body.email data = Some e" and u: "u = new_user db nm e pw ph a'"
      and us: "users db' = users db @ [u]"
      by auto
    have "user.email u = e" by (simp add: u new_user_def)
    then have "find (\<lambda>u. user.email u = e) (users db') \<noteq> None"
      unfolding us by (rule find_append_last)
    with a f show "register db' data2 = (Fail 400 ''Email already registered'', db')"
      by (intro dup) simp_all
  qed
  from p1 p2 p3 p4 show ?thesis by (intro conjI)
qed

text \<open>
  Claim C10. A \<open>register\<close> call that does not reply (a missing field, a registered email,
  an invalid code, an age that is no integer) returns the store it was given: no user is
  added and no code record is marked used. In particular, when the code lookup has found a
  record and the age then fails to convert, the answer is the 400 for the age and the same
  lookup on the resulting store finds the same record.
\<close>

theorem register_failure_atomic:
  "(\<forall>r db'. register db data = (r, db') \<and> (\<forall>k u. r \<noteq> Reply k u) \<longrightarrow> db' = db) \<and>
   (all_present data \<and> register_body.email data = Some em \<and>
    find (\<lambda>u. user.email u = em) (users db) = None \<and>
    register_body.phone data = Some ph \<and> register_body.otp data = Some oc \<and>
    newest (filter (otp_matches ph (py_str oc)) (otp_codes db)) = Some found \<and>
    parse_age (register_body.age data) = Inl ValueError \<longrightarrow>
      register db data = (Fail 400 ''age must be a number'', db) \<and>
      newest (filter (otp_matches ph (py_str oc)) (otp_codes (snd (register db data)))) =
        Some found)"
proof -
  have p1: "\<forall>r db'. register db data = (r, db') \<and> (\<forall>k u. r \<noteq> Reply k u) \<longrightarrow> db' = db"
    using register_no_reply by blast
  have p2: "all_present data \<and> register_body.email data = Some em \<and>
    find (\<lambda>u. user.email u = em) (users db) = None \<and>
    register_body.phone data = Some ph \<and> register_body.otp data = Some oc \<and>
    newest (filter (otp_matches ph (py_str oc)) (otp_codes db)) = Some found \<and>
    parse_age (register_body.age data) = Inl ValueError \<longrightarrow>
      register db data = (Fail 400 ''age must be a number'', db) \<and>
      newest (filter (otp_matches ph (py_str oc)) (otp_codes (snd (register db data)))) =
        Some found"
  proof
    assume a: "all_present data \<and> register_body.email data = Some em \<and>
      find (\<lambda>u. user.email u = em) (users db) = None \<and>
      register_body.phone data = Some ph \<and> register_body.otp data = Some oc \<and>
      newest (filter (otp_matches ph (py_str oc)) (otp_codes db)) = Some found \<and>
      parse_age (register_body.age data) = Inl ValueError"
    then have "all_present data" by simp
    then obtain nm em' pw ph' oc' where
      d: "register_body.name data = Some nm" "nm \<noteq> []"
      "register_body.email data = Some em'" "em' \<noteq> []"
      "register_body.password data = Some pw" "pw \<noteq> []"
      "register_body.phone data = Some ph'" "ph' \<noteq> []"
      "register_body.otp data = Some oc'" "truthy oc'"
      by (rule all_present_cases)
    from a d have e: "em' = em" "ph' = ph" "oc' = oc" by simp_all
    from a have r: "register db data = (Fail 400 ''age must be a number'', db)"
      unfolding register_unfold [OF d] e by simp
    with a show "register db data = (Fail 400 ''age must be a number'', db) \<and>
      newest (filter (otp_matches ph (py_str oc)) (otp_codes (snd (register db data)))) =
        Some found"
      by simp
  qed
  from p1 p2 show ?thesis by (intro conjI)
qed

lemmas register_eval_defs = register_def request_otp_def all_present_def otp_matches_def
  session_defs update_rows_def Let_def format_06d_def dec_int_def dec_nat.simps digit_char_def
  int_of_str_def strip_def is_space_def is_digit_def digit_val_def
  lower_def lower_char_def OWNER_ADMIN_EMAIL_def

lemmas register_demo_defs = otp1_def otp_db_def carol_body_def carol_def carol_db_def
  dave_body_def bad_age_body_def users_db_def ann_def bob_def

lemma request_otp_example:
  "request_otp users_db 100 123456 \<lparr>otp_request.phone = Some ''9999999999''\<rparr> =
     (Reply 200 ''123456'', otp_db)"
  by (simp add: register_eval_defs register_demo_defs)

lemma register_example:
  "register otp_db carol_body = (Reply 201 carol, carol_db)"
  by (simp add: register_eval_defs register_demo_defs)

theorem register_consumes_otp_witness:
  "register otp_db carol_body = (Reply 201 carol, carol_db) \<and>
   otp_codes carol_db = [otp1\<lparr>otp_code.is_used := True\<rparr>] \<and>
   register carol_db dave_body = (Fail 400 ''Invalid or used OTP'', carol_db) \<and>
   register carol_db carol_body = (Fail 400 ''Email already registered'', carol_db)"
proof -
  have h: "register otp_db carol_body = (Reply 201 carol, carol_db)"
    by (rule register_example)
  have o: "otp_codes carol_db = [otp1\<lparr>otp_code.is_used := True\<rparr>]"
    by (simp add: carol_db_def)
  have a: "register carol_db dave_body = (Fail 400 ''Invalid or used OTP'', carol_db)"
    using register_consumes_otp [of dave_body "''9999999999''" "JStr ''123456''" carol_db
        "''dave@mail.com''"]
    by (simp add: register_demo_defs all_present_def)
  have b: "register carol_db carol_body = (Fail 400 ''Email already registered'', carol_db)"
    using h register_consumes_otp [of carol_body "''9999999999''" "JInt 123456" otp_db
        "''carol@mail.com''"]
    by (simp add: carol_body_def all_present_def)
  from h o a b show ?thesis by simp
qed

theorem register_failure_atomic_witness:
  "register otp_db bad_age_body = (Fail 400 ''age must be a number'', otp_db) \<and>
   newest (filter (otp_matches ''9999999999'' ''123456'')
             (otp_codes (snd (register otp_db bad_age_body)))) = Some otp1 \<and>
   register (snd (register otp_db bad_age_body)) carol_body = (Reply 201 carol, carol_db)"
proof -
  have s: "py_str (JInt 123456) = ''123456''"
    by (simp add: dec_int_def dec_nat.simps digit_char_def)
  have ab: "register otp_db bad_age_body = (Fail 400 ''age must be a number'', otp_db) \<and>
      newest (filter (otp_matches ''9999999999'' (py_str (JInt 123456)))
                (otp_codes (snd (register otp_db bad_age_body)))) = Some otp1"
    using register_failure_atomic [of otp_db bad_age_body "''carol@mail.com''" "''9999999999''"
        "JInt 123456" otp1]
    by (simp add: register_demo_defs all_present_def otp_matches_def dec_int_def dec_nat.simps
        digit_char_def int_of_str_def strip_def is_space_def is_digit_def digit_val_def)
  then have a: "register otp_db bad_age_body = (Fail 400 ''age must be a number'', otp_db)"
    by (rule conjunct1)
  from ab have b: "newest (filter (otp_matches ''9999999999'' ''123456'')
      (otp_codes (snd (register otp_db bad_age_body)))) = Some otp1"
    unfolding s by (rule conjunct2)
  have c: "register (snd (register otp_db bad_age_body)) carol_body = (Reply 201 carol, carol_db)"
    by (simp only: a snd_conv register_example)
  from a b c show ?thesis by (intro conjI)
qed

section \<open>Roles\<close>

lemma register_role:
  assumes "register db data = (Reply k u, db')"
  shows "user.role u = ''admin'' \<longleftrightarrow> lower (user.email u) = lower OWNER_ADMIN_EMAIL"
proof -
  from register_reply [OF assms] obtain nm em pw ph a where "u = new_user db nm em pw ph a"
    by blast
  then show ?thesis by (simp add: new_user_def owner_role_def)
qed

lemmas import_eval_defs = import_employees_def path_join_def row_get_def row_get_default_def
  session_defs Let_def files_with_def employees_csv_def

lemmas import_demo_defs = admin_row_def eve_def short_row_def frank_full_row_def frank_row_def
  grace_row_def
  bob_row_def frank_def grace_def users_db_def ann_def bob_def

text \<open>
  Claim C6 fails on the import path: a row whose \<open>role\<close> cell is \<open>admin\<close> becomes an admin
  user, whatever its email.
\<close>

theorem import_employees_creates_admin:
  "import_employees ''/srv/app'' (files_with [admin_row]) users_db employees_csv =
     (Reply 200 (1, 0), users_db\<lparr>users := [ann, bob, eve]\<rparr>) \<and>
   user.role eve = ''admin'' \<and> lower (user.email eve) \<noteq> lower OWNER_ADMIN_EMAIL"
  by (simp add: import_eval_defs import_demo_defs lower_def lower_char_def OWNER_ADMIN_EMAIL_def)

section \<open>Employee import\<close>

lemma import_employees_scenario:
  "import_employees ''/srv/app'' (files_with [frank_row, bob_row, grace_row]) users_db employees_csv =
     (Reply 200 (2, 1), users_db\<lparr>users := [ann, bob, frank, grace]\<rparr>)"
  by (simp add: import_eval_defs import_demo_defs)

lemma import_employees_not_found:
  assumes "import_body.path data = Some p" "p \<noteq> []" "files (path_join root_path p) = None"
  shows "import_employees root_path files db data =
           (Fail 400 (''File not found: '' @ path_join root_path p), db)"
  using assms by (simp add: import_employees_def session_defs Let_def)

lemma row_get_default_Some:
  "row k \<noteq> Some None \<Longrightarrow> \<exists>v. row_get_default row k d = Some v"
  by (cases "row k") (auto simp: row_get_default_def)

text \<open>
  On rows that have their password and role cells whenever the header names these
  columns, the loop ends normally: it only appends users, all of them verified, and
  counts each of them as created.
\<close>

lemma import_rows_complete:
  assumes "\<forall>row\<in>set rows. row ''password'' \<noteq> Some None \<and> row ''role'' \<noteq> Some None"
  shows "\<exists>added skipped'. import_rows us created skipped rows =
           Inr (us @ added, created + length added, skipped') \<and>
           list_all user.is_verified added"
  using assms
proof (induction rows arbitrary: us created skipped)
  case Nil
  have "import_rows us created skipped [] =
      Inr (us @ [], created + length ([] :: user list), skipped) \<and>
      list_all user.is_verified []"
    by simp
  then show ?case by blast
next
  case (Cons row rows)
  from Cons.prems have rest: "\<forall>row\<in>set rows. row ''password'' \<noteq> Some None \<and> row ''role'' \<noteq> Some None"
    and here: "row ''password'' \<noteq> Some None" "row ''role'' \<noteq> Some None"
    by simp_all
  from here obtain pw r where
    pw: "row_get_default row ''password'' ''password123'' = Some pw"
    and r: "row_get_default row ''role'' ''staff'' = Some r"
    using row_get_default_Some by blast
  show ?case
  proof (cases "truthy_str (row_get row ''email'') \<and> truthy_str (row_get row ''name'')")
    case False
    then have "import_rows us created skipped (row # rows) = import_rows us created skipped rows"
      by auto
    with Cons.IH [OF rest, of us created skipped] show ?thesis by simp
  next
    case True
    then obtain em nm where f: "row_get row ''email'' = Some em" "row_get row ''name'' = Some nm"
      and ne: "em \<noteq> []" "nm \<noteq> []"
      by (cases "row_get row ''email''"; cases "row_get row ''name''") auto
    show ?thesis
    proof (cases "find (\<lambda>u. user.email u = em) us")
      case (Some u)
      with f ne have "import_rows us created skipped (row # rows) =
          import_rows us created (skipped + 1) rows"
        by simp
      with Cons.IH [OF rest, of us created "skipped + 1"] show ?thesis by simp
    next
      case None
      define u where "u = \<lparr>user.id = next_id (map user.id us), name = nm, email = em,
        password_hash = Hashed pw, role = r, age = None, phone = None, is_verified = True\<rparr>"
      from None f ne pw r have step: "import_rows us created skipped (row # rows) =
          import_rows (us @ [u]) (created + 1) skipped rows"
        by (simp add: u_def)
      from Cons.IH [OF rest, of "us @ [u]" "created + 1" skipped]
      obtain added skipped' where
        a: "import_rows (us @ [u]) (created + 1) skipped rows =
              Inr ((us @ [u]) @ added, created + 1 + length added, skipped')"
        and v: "list_all user.is_verified added"
        by blast
      have "import_rows us created skipped (row # rows) =
          Inr (us @ (u # added), created + length (u # added), skipped')"
        unfolding step a by simp
      moreover have "list_all user.is_verified (u # added)"
        using v by (simp add: u_def)
      ultimately show ?thesis by blast
    qed
  qed
qed

text \<open>
  Claim C8 fails on a line that is shorter than the header. The file here has the header
  \<open>name,email,password,role\<close>, a complete line for Frank and the line \<open>Eve,eve@corp.com,pw1\<close>:
  the \<open>role\<close> cell of the second row is \<open>None\<close>, no default applies, and the import ends in
  an uncaught exception with nothing created, Frank included, and no counts reported.
\<close>

theorem import_employees_short_row:
  "import_employees ''/srv/app'' (files_with [frank_full_row, short_row]) users_db employees_csv =
     (Uncaught IntegrityError, users_db)"
  by (simp add: import_eval_defs import_demo_defs)

end
